theory Spec2Isabelle
  imports Main
begin

section \<open>The parse tree\<close>

text \<open>
  A parse tree of blib2to3 is a \<open>Leaf\<close> (token type, text, line, column) or a \<open>Node\<close>
  (grammar symbol, children). The numeric values of the token types and of the grammar
  symbols are fixed by blib2to3, outside \<open>compile.py\<close>; \<open>compile.py\<close> only compares them
  with the named constants \<open>token.X\<close> and \<open>syms.x\<close> and dispatches on their names, so a
  type is modelled by its name. \<open>Leaf\<close> takes a token (type below 256) and \<open>Node\<close> a
  symbol, as the two constructors of blib2to3 assert. \<open>OTHER_TOKEN n\<close> and
  \<open>other_symbol n\<close> stand for every token and symbol that \<open>compile.py\<close> does not
  mention, \<open>n\<close> being its name.
\<close>

datatype tok =
    ENDMARKER | NAME | NUMBER | STRING | NEWLINE
  | LPAR | RPAR | LSQB | RSQB | LBRACE | RBRACE
  | COLON | COMMA | DOT | BACKQUOTE | EQUAL | COLONEQUAL
  | PLUS | MINUS | STAR | SLASH | AT | DOUBLESLASH | PERCENT | DOUBLESTAR
  | LEFTSHIFT | RIGHTSHIFT | AMPER | VBAR | CIRCUMFLEX | TILDE
  | EQEQUAL | NOTEQUAL | LESS | GREATER | LESSEQUAL | GREATEREQUAL
  | AWAIT | ASYNC
  | OTHER_TOKEN string

datatype sym =
    typevar | paramspec | typevartuple | typeparam
  | file_input | simple_stmt
  | testlist_gexp | atom | listmaker | dictsetmaker
  | expr | xor_expr | and_expr | shift_expr | arith_expr | term_sym
  | comparison | star_expr | not_test | and_test | or_test | test
  | factor | power_sym | arglist
  | old_comp_for | comp_for
  | subscript | subscriptlist | sliceop
  | other_symbol string

datatype kind = Token tok | Symbol sym

datatype nl =
    Leaf tok string int int
  | Node sym "nl list"

text \<open>\<open>node.type\<close>.\<close>

fun type_of :: "nl \<Rightarrow> kind" where
  "type_of (Leaf t v l c) = Token t"
| "type_of (Node y cs) = Symbol y"

text \<open>\<open>isinstance(node, Leaf)\<close>.\<close>

fun is_Leaf :: "nl \<Rightarrow> bool" where
  "is_Leaf (Leaf t v l c) = True"
| "is_Leaf (Node y cs) = False"

text \<open>
  \<open>node.children\<close>. A \<open>Leaf\<close> of blib2to3 has the attribute too, always the empty list.
\<close>

fun children :: "nl \<Rightarrow> nl list" where
  "children (Leaf t v l c) = []"
| "children (Node y cs) = cs"

section \<open>Exceptions\<close>

text \<open>
  Every exception the code can raise is a value. \<open>UnsupportedSyntaxError\<close> carries its
  message. \<open>NotImplementedError\<close> carries \<open>visit_<name>\<close> when raised by \<open>generic_visit\<close>,
  and the offending node when raised with \<open>repr(node)\<close>. \<open>AssertionError\<close> is a failed
  \<open>assert\<close> (its message is not modelled). \<open>IndexError\<close>, \<open>KeyError\<close> and
  \<open>AttributeError\<close> are the implicit failures of a subscript out of range, a key missing
  from one of the operator tables, and an attribute that the object does not have.
  \<open>LiteralError\<close> is whatever \<open>ast.literal_eval\<close> raises.
\<close>

datatype not_implemented = Visit string | Repr nl

datatype error =
    UnsupportedSyntaxError string
  | NotImplementedError not_implemented
  | AssertionError
  | IndexError
  | KeyError
  | AttributeError
  | LiteralError

text \<open>\<open>leaf.value\<close>: a \<open>Node\<close> has no such attribute.\<close>

fun value_of :: "nl \<Rightarrow> error + string" where
  "value_of (Leaf t v l c) = Inr v"
| "value_of (Node y cs) = Inl AttributeError"

text \<open>
  \<open>xs[i]\<close> for a Python list: a negative index counts from the end, an index out of
  range raises \<open>IndexError\<close>.
\<close>

definition item :: "'a list \<Rightarrow> int \<Rightarrow> error + 'a" where
  "item xs i =
     (if 0 \<le> i \<and> i < int (length xs) then Inr (xs ! nat i)
      else if i < 0 \<and> - int (length xs) \<le> i then Inr (xs ! nat (int (length xs) + i))
      else Inl IndexError)"

text \<open>The slice \<open>xs[::2]\<close>: the elements at the even positions.\<close>

fun every_other :: "'a list \<Rightarrow> 'a list" where
  "every_other [] = []"
| "every_other [x] = [x]"
| "every_other (x # y # xs) = x # every_other xs"

section \<open>Source ranges\<close>

record line_range =
  lineno :: int
  col_offset :: int
  end_lineno :: int
  end_col_offset :: int

text \<open>
  \<open>str.rfind(ch)\<close> for a one-character needle: the highest index at which \<open>ch\<close> occurs,
  or \<open>-1\<close>.
\<close>

fun rfind :: "string \<Rightarrow> char \<Rightarrow> int" where
  "rfind [] ch = - 1"
| "rfind (c # cs) ch =
     (let r = rfind cs ch
      in if 0 \<le> r then r + 1 else if c = ch then 0 else - 1)"

abbreviation newline :: char where
  "newline \<equiv> CHR 0x0A"

fun get_line_range_for_leaf :: "nl \<Rightarrow> error + line_range" where
  "get_line_range_for_leaf (Leaf t v l c) =
     (let num_newlines = int (count_list v newline);
          end_col =
            (if num_newlines = 0 then c + int (length v)
             else int (length v) - rfind v newline - 1)
      in Inr \<lparr>lineno = l, col_offset = c,
              end_lineno = l + num_newlines, end_col_offset = end_col\<rparr>)"
| "get_line_range_for_leaf (Node y cs) = Inl AttributeError"

definition unify_line_ranges :: "line_range \<Rightarrow> line_range \<Rightarrow> line_range" where
  "unify_line_ranges begin_range end_range =
     \<lparr>lineno = lineno begin_range, col_offset = col_offset begin_range,
      end_lineno = end_lineno end_range, end_col_offset = end_col_offset end_range\<rparr>"

lemma item_mem: "item xs i = Inr x \<Longrightarrow> x \<in> set xs"
  by (auto simp: item_def Let_def split: if_splits)

lemma mem_size: "c \<in> set cs \<Longrightarrow> size (c::nl) < Suc (size_list size cs)"
  by (induction cs) auto

lemma item_size:
  "item cs i = Inr (c::nl) \<Longrightarrow> size c < Suc (size_list size cs)"
  by (rule mem_size) (rule item_mem)

function get_line_range :: "nl \<Rightarrow> error + line_range" where
  "get_line_range (Leaf t v l c) = get_line_range_for_leaf (Leaf t v l c)"
| "get_line_range (Node y cs) =
     (case item cs 0 of
        Inl e \<Rightarrow> Inl e
      | Inr first \<Rightarrow>
          (case get_line_range first of
             Inl e \<Rightarrow> Inl e
           | Inr begin_range \<Rightarrow>
               (case item cs (- 1) of
                  Inl e \<Rightarrow> Inl e
                | Inr final \<Rightarrow>
                    (case get_line_range final of
                       Inl e \<Rightarrow> Inl e
                     | Inr end_range \<Rightarrow> Inr (unify_line_ranges begin_range end_range)))))"
  by pat_completeness auto
termination
  by (relation "measure size") (auto simp: item_size)

section \<open>The consumer\<close>

text \<open>
  \<open>_Consumer\<close>: a child sequence and an index into it. The index starts at 0 and is only
  ever incremented, so it is a natural number. \<open>consume\<close> returns the node or \<open>None\<close>
  together with the updated consumer; the subscript \<open>self.children[self.index]\<close> is the
  fallible \<open>item\<close>, so that \<open>consume\<close> has a result of the type of a function that
  could raise.
\<close>

record consumer =
  cons_children :: "nl list"
  index :: nat

definition consume :: "kind option \<Rightarrow> consumer \<Rightarrow> error + (nl option \<times> consumer)" where
  "consume typ c =
     (if index c < length (cons_children c) then
        (case item (cons_children c) (int (index c)) of
           Inl e \<Rightarrow> Inl e
         | Inr node \<Rightarrow>
             if typ = None \<or> Some (type_of node) = typ
             then Inr (Some node, c\<lparr>index := index c + 1\<rparr>)
             else Inr (None, c))
      else Inr (None, c))"

definition done_c :: "consumer \<Rightarrow> bool" where
  "done_c c = (index c \<ge> length (cons_children c))"

section \<open>The abstract syntax tree\<close>

text \<open>
  The node classes of Python's \<open>ast\<close> module that \<open>compile.py\<close> builds, each with the
  fields the code passes and the source range passed as \<open>**get_line_range(...)\<close>. A
  constant is \<open>Ellipsis\<close> or the value \<open>'v\<close> that \<open>ast.literal_eval\<close> returns. \<open>Not\<close>
  and \<open>Pow\<close> are written \<open>Not_op\<close> and \<open>Pow_op\<close>. \<open>keys\<close> of a \<open>Dict\<close> and \<open>key\<close> of a
  \<open>DictComp\<close> are optional because the code stores \<open>None\<close> for a \<open>**\<close> entry. \<open>Set\<close>
  carries the \<open>ctx\<close> that the code passes to it. The \<open>TypeVar\<close> of Python 3.12 has no
  \<open>default_value\<close>; it is \<open>None\<close> here.
\<close>

datatype expr_context = Load | Store | Del

datatype operator =
    Add | Sub | Mult | Div | MatMult | FloorDiv | Mod | Pow_op
  | LShift | RShift | BitAnd | BitOr | BitXor

datatype cmpop = Eq | NotEq | Lt | Gt | LtE | GtE | Is | In | IsNot | NotIn

datatype unaryop = UAdd | USub | Invert | Not_op

datatype boolop = And | Or

datatype 'v py_constant = Ellipsis | Value 'v

datatype 'v ast =
    Module "'v ast list" line_range
  | Expr "'v ast" line_range
  | TypeVar string "'v ast option" "'v ast option" line_range
  | ParamSpec string "'v ast option" line_range
  | TypeVarTuple string "'v ast option" line_range
  | Name string expr_context line_range
  | Constant "'v py_constant" line_range
  | BinOp "'v ast" operator "'v ast" line_range
  | BoolOp boolop "'v ast list" line_range
  | UnaryOp unaryop "'v ast" line_range
  | Compare "'v ast" "cmpop list" "'v ast list" line_range
  | IfExp "'v ast" "'v ast" "'v ast" line_range
  | Call "'v ast" "'v ast list" "'v keyword list" line_range
  | Attribute "'v ast" string expr_context line_range
  | Subscript "'v ast" "'v ast" expr_context line_range
  | Slice "'v ast option" "'v ast option" "'v ast option" line_range
  | Starred "'v ast" expr_context line_range
  | Tuple "'v ast list" expr_context line_range
  | List "'v ast list" expr_context line_range
  | Set "'v ast list" expr_context line_range
  | Dict "'v ast option list" "'v ast list" line_range
  | ListComp "'v ast" "'v comprehension list" line_range
  | SetComp "'v ast" "'v comprehension list" line_range
  | DictComp "'v ast option" "'v ast" "'v comprehension list" line_range
  | GeneratorExp "'v ast" "'v comprehension list" line_range
  | NamedExpr "'v ast" "'v ast" line_range
  | Await "'v ast" line_range
and 'v keyword = Keyword "string option" "'v ast" line_range
and 'v comprehension = Comprehension "'v ast" "'v ast" "'v ast list" int

text \<open>\<open>isinstance(x, ast.expr)\<close>: every class above but the module, the expression
  statement and the three type parameters.\<close>

fun is_expr :: "'v ast \<Rightarrow> bool" where
  "is_expr (Module body r) = False"
| "is_expr (Expr v r) = False"
| "is_expr (TypeVar n b d r) = False"
| "is_expr (ParamSpec n d r) = False"
| "is_expr (TypeVarTuple n d r) = False"
| "is_expr x = True"

text \<open>\<open>isinstance(x, ast.Name)\<close>.\<close>

fun is_Name :: "'v ast \<Rightarrow> bool" where
  "is_Name (Name n c r) = True"
| "is_Name x = False"

text \<open>\<open>target.id\<close>; only a \<open>Name\<close> is ever asked for it.\<close>

fun name_id :: "'v ast \<Rightarrow> error + string" where
  "name_id (Name n c r) = Inr n"
| "name_id x = Inl AttributeError"

section \<open>The operator tables\<close>

text \<open>A dictionary keyed by a node type; \<open>d[k]\<close> raises \<open>KeyError\<close> for a missing key.\<close>

fun TOKEN_TYPE_TO_BINOP :: "kind \<Rightarrow> operator option" where
  "TOKEN_TYPE_TO_BINOP (Token PLUS) = Some Add"
| "TOKEN_TYPE_TO_BINOP (Token MINUS) = Some Sub"
| "TOKEN_TYPE_TO_BINOP (Token STAR) = Some Mult"
| "TOKEN_TYPE_TO_BINOP (Token SLASH) = Some Div"
| "TOKEN_TYPE_TO_BINOP (Token AT) = Some MatMult"
| "TOKEN_TYPE_TO_BINOP (Token DOUBLESLASH) = Some FloorDiv"
| "TOKEN_TYPE_TO_BINOP (Token PERCENT) = Some Mod"
| "TOKEN_TYPE_TO_BINOP (Token DOUBLESTAR) = Some Pow_op"
| "TOKEN_TYPE_TO_BINOP (Token LEFTSHIFT) = Some LShift"
| "TOKEN_TYPE_TO_BINOP (Token RIGHTSHIFT) = Some RShift"
| "TOKEN_TYPE_TO_BINOP (Token AMPER) = Some BitAnd"
| "TOKEN_TYPE_TO_BINOP (Token VBAR) = Some BitOr"
| "TOKEN_TYPE_TO_BINOP (Token CIRCUMFLEX) = Some BitXor"
| "TOKEN_TYPE_TO_BINOP k = None"

fun TOKEN_TYPE_TO_COMPARE_OP :: "kind \<Rightarrow> cmpop option" where
  "TOKEN_TYPE_TO_COMPARE_OP (Token EQEQUAL) = Some Eq"
| "TOKEN_TYPE_TO_COMPARE_OP (Token NOTEQUAL) = Some NotEq"
| "TOKEN_TYPE_TO_COMPARE_OP (Token LESS) = Some Lt"
| "TOKEN_TYPE_TO_COMPARE_OP (Token GREATER) = Some Gt"
| "TOKEN_TYPE_TO_COMPARE_OP (Token LESSEQUAL) = Some LtE"
| "TOKEN_TYPE_TO_COMPARE_OP (Token GREATEREQUAL) = Some GtE"
| "TOKEN_TYPE_TO_COMPARE_OP k = None"

definition NAME_TO_COMPARE_OP :: "string \<Rightarrow> cmpop option" where
  "NAME_TO_COMPARE_OP n =
     (if n = ''is'' then Some Is else if n = ''in'' then Some In else None)"

fun TOKEN_TYPE_TO_UNARY_OP :: "kind \<Rightarrow> unaryop option" where
  "TOKEN_TYPE_TO_UNARY_OP (Token PLUS) = Some UAdd"
| "TOKEN_TYPE_TO_UNARY_OP (Token MINUS) = Some USub"
| "TOKEN_TYPE_TO_UNARY_OP (Token TILDE) = Some Invert"
| "TOKEN_TYPE_TO_UNARY_OP k = None"

definition lookup :: "('k \<Rightarrow> 'a option) \<Rightarrow> 'k \<Rightarrow> error + 'a" where
  "lookup d k = (case d k of None \<Rightarrow> Inl KeyError | Some x \<Rightarrow> Inr x)"

section \<open>The compiler's state and its exceptions\<close>

text \<open>
  The only mutable state of a \<open>Compiler\<close> is \<open>self.expr_context\<close>. A method is a function
  from the context before the call to the outcome, an exception (\<open>Inl\<close>) or a result
  (\<open>Inr\<close>), and the context after the call, which exists also when an exception leaves
  the method.
\<close>

type_synonym 'a M = "expr_context \<Rightarrow> (error + 'a) \<times> expr_context"

definition return :: "'a \<Rightarrow> 'a M" where
  "return x = (\<lambda>s. (Inr x, s))"

definition raise :: "error \<Rightarrow> 'a M" where
  "raise e = (\<lambda>s. (Inl e, s))"

text \<open>Sequencing: run \<open>m\<close>; an exception propagates, a result is passed on to \<open>f\<close>.\<close>

definition bindM :: "'a M \<Rightarrow> ('a \<Rightarrow> 'b M) \<Rightarrow> 'b M" where
  "bindM m f = (\<lambda>s. case m s of (Inl e, s') \<Rightarrow> (Inl e, s') | (Inr x, s') \<Rightarrow> f x s')"

text \<open>Sequencing after an operation that reads no state (a subscript, a table lookup,
  a source range).\<close>

definition bindE :: "error + 'a \<Rightarrow> ('a \<Rightarrow> 'b M) \<Rightarrow> 'b M" where
  "bindE r f = (case r of Inl e \<Rightarrow> raise e | Inr x \<Rightarrow> f x)"

text \<open>Reading \<open>self.expr_context\<close>.\<close>

definition get_expr_context :: "expr_context M" where
  "get_expr_context = (\<lambda>s. (Inr s, s))"

text \<open>\<open>assert b\<close>.\<close>

definition assert :: "bool \<Rightarrow> unit M" where
  "assert b = (if b then return () else raise AssertionError)"

text \<open>
  \<open>with self.set_expr_context(c): body\<close>. The context manager saves the old context,
  sets \<open>c\<close>, runs the body and, in its \<open>finally\<close> clause, puts the old context back
  whether the body returned or raised.
\<close>

definition set_expr_context :: "expr_context \<Rightarrow> 'a M \<Rightarrow> 'a M" where
  "set_expr_context c body =
     (\<lambda>old_expr_context. case body c of (r, s') \<Rightarrow> (r, old_expr_context))"

text \<open>A \<open>for\<close> loop over a list that updates loop variables \<open>acc\<close>, and a list
  comprehension \<open>[f(x) for x in xs]\<close>.\<close>

primrec for_each :: "'a list \<Rightarrow> 'b \<Rightarrow> ('a \<Rightarrow> 'b \<Rightarrow> 'b M) \<Rightarrow> 'b M" where
  "for_each [] acc body = return acc"
| "for_each (x # xs) acc body = bindM (body x acc) (\<lambda>acc'. for_each xs acc' body)"

primrec map_M :: "('a \<Rightarrow> 'b M) \<Rightarrow> 'a list \<Rightarrow> 'b list M" where
  "map_M f [] = return []"
| "map_M f (x # xs) = bindM (f x) (\<lambda>y. bindM (map_M f xs) (\<lambda>ys. return (y # ys)))"

text \<open>
  The environment of a run: \<open>sys.version_info\<close>, of which the code compares the major
  and minor number only, and \<open>ast.literal_eval\<close>.
\<close>

record 'v env =
  version_info :: "int \<times> int"
  literal_eval :: "string \<Rightarrow> error + 'v"

text \<open>Python's comparison of tuples, on pairs.\<close>

definition version_ge :: "int \<times> int \<Rightarrow> int \<times> int \<Rightarrow> bool" where
  "version_ge a b = (fst a > fst b \<or> (fst a = fst b \<and> snd a \<ge> snd b))"

definition version_lt :: "int \<times> int \<Rightarrow> int \<times> int \<Rightarrow> bool" where
  "version_lt a b = (fst a < fst b \<or> (fst a = fst b \<and> snd a < snd b))"

section \<open>Dispatch by name\<close>

text \<open>\<open>token.tok_name\<close> and \<open>type_repr\<close>: the name of a node type.\<close>

fun tok_name :: "tok \<Rightarrow> string" where
  "tok_name ENDMARKER = ''ENDMARKER''" | "tok_name NAME = ''NAME''"
| "tok_name NUMBER = ''NUMBER''" | "tok_name STRING = ''STRING''"
| "tok_name NEWLINE = ''NEWLINE''" | "tok_name LPAR = ''LPAR''"
| "tok_name RPAR = ''RPAR''" | "tok_name LSQB = ''LSQB''"
| "tok_name RSQB = ''RSQB''" | "tok_name LBRACE = ''LBRACE''"
| "tok_name RBRACE = ''RBRACE''" | "tok_name COLON = ''COLON''"
| "tok_name COMMA = ''COMMA''" | "tok_name DOT = ''DOT''"
| "tok_name BACKQUOTE = ''BACKQUOTE''" | "tok_name EQUAL = ''EQUAL''"
| "tok_name COLONEQUAL = ''COLONEQUAL''" | "tok_name PLUS = ''PLUS''"
| "tok_name MINUS = ''MINUS''" | "tok_name STAR = ''STAR''"
| "tok_name SLASH = ''SLASH''" | "tok_name AT = ''AT''"
| "tok_name DOUBLESLASH = ''DOUBLESLASH''" | "tok_name PERCENT = ''PERCENT''"
| "tok_name DOUBLESTAR = ''DOUBLESTAR''" | "tok_name LEFTSHIFT = ''LEFTSHIFT''"
| "tok_name RIGHTSHIFT = ''RIGHTSHIFT''" | "tok_name AMPER = ''AMPER''"
| "tok_name VBAR = ''VBAR''" | "tok_name CIRCUMFLEX = ''CIRCUMFLEX''"
| "tok_name TILDE = ''TILDE''" | "tok_name EQEQUAL = ''EQEQUAL''"
| "tok_name NOTEQUAL = ''NOTEQUAL''" | "tok_name LESS = ''LESS''"
| "tok_name GREATER = ''GREATER''" | "tok_name LESSEQUAL = ''LESSEQUAL''"
| "tok_name GREATEREQUAL = ''GREATEREQUAL''" | "tok_name AWAIT = ''AWAIT''"
| "tok_name ASYNC = ''ASYNC''" | "tok_name (OTHER_TOKEN n) = n"

fun type_repr :: "sym \<Rightarrow> string" where
  "type_repr typevar = ''typevar''" | "type_repr paramspec = ''paramspec''"
| "type_repr typevartuple = ''typevartuple''" | "type_repr typeparam = ''typeparam''"
| "type_repr file_input = ''file_input''" | "type_repr simple_stmt = ''simple_stmt''"
| "type_repr testlist_gexp = ''testlist_gexp''" | "type_repr atom = ''atom''"
| "type_repr listmaker = ''listmaker''" | "type_repr dictsetmaker = ''dictsetmaker''"
| "type_repr expr = ''expr''" | "type_repr xor_expr = ''xor_expr''"
| "type_repr and_expr = ''and_expr''" | "type_repr shift_expr = ''shift_expr''"
| "type_repr arith_expr = ''arith_expr''" | "type_repr term_sym = ''term''"
| "type_repr comparison = ''comparison''" | "type_repr star_expr = ''star_expr''"
| "type_repr not_test = ''not_test''" | "type_repr and_test = ''and_test''"
| "type_repr or_test = ''or_test''" | "type_repr test = ''test''"
| "type_repr factor = ''factor''" | "type_repr power_sym = ''power''"
| "type_repr arglist = ''arglist''" | "type_repr old_comp_for = ''old_comp_for''"
| "type_repr comp_for = ''comp_for''" | "type_repr subscript = ''subscript''"
| "type_repr subscriptlist = ''subscriptlist''" | "type_repr sliceop = ''sliceop''"
| "type_repr (other_symbol n) = n"

fun get_node_name :: "nl \<Rightarrow> string" where
  "get_node_name (Leaf t v l c) = tok_name t"
| "get_node_name (Node y cs) = type_repr y"

definition generic_visit :: "nl \<Rightarrow> 'v ast M" where
  "generic_visit node = raise (NotImplementedError (Visit (''visit_'' @ get_node_name node)))"

section \<open>The methods of the compiler\<close>

text \<open>
  Each method takes the function \<open>visit\<close> that it calls as \<open>self.visit\<close>; the recursion is
  closed in the last section. \<open>self.visit(None)\<close> fails on \<open>node.type\<close>.
\<close>

definition visit_opt :: "(nl \<Rightarrow> 'v ast M) \<Rightarrow> nl option \<Rightarrow> 'v ast M" where
  "visit_opt visit node = (case node of None \<Rightarrow> raise AttributeError | Some n \<Rightarrow> visit n)"

text \<open>\<open>get_line_range(None)\<close> fails on \<open>node.children\<close>.\<close>

definition get_line_range_opt :: "nl option \<Rightarrow> error + line_range" where
  "get_line_range_opt node = (case node of None \<Rightarrow> Inl AttributeError | Some n \<Rightarrow> get_line_range n)"

subsection \<open>Leaves\<close>

definition visit_NAME :: "nl \<Rightarrow> 'v ast M" where
  "visit_NAME leaf =
     bindE (value_of leaf) (\<lambda>v.
     bindM get_expr_context (\<lambda>ctx.
     bindE (get_line_range leaf) (\<lambda>r.
     return (Name v ctx r))))"

definition visit_NUMBER :: "'v env \<Rightarrow> nl \<Rightarrow> 'v ast M" where
  "visit_NUMBER env leaf =
     bindE (value_of leaf) (\<lambda>v.
     bindE (literal_eval env v) (\<lambda>x.
     bindE (get_line_range leaf) (\<lambda>r.
     return (Constant (Value x) r))))"

definition visit_STRING :: "'v env \<Rightarrow> nl \<Rightarrow> 'v ast M" where
  "visit_STRING env leaf =
     bindE (value_of leaf) (\<lambda>v.
     bindE (literal_eval env v) (\<lambda>x.
     bindE (get_line_range leaf) (\<lambda>r.
     return (Constant (Value x) r))))"

definition visit_COLON :: "nl \<Rightarrow> 'v ast M" where
  "visit_COLON leaf =
     bindE (get_line_range leaf) (\<lambda>r. return (Slice None None None r))"

subsection \<open>Type parameters\<close>

text \<open>The body of \<open>for index in (1, 3)\<close> in \<open>visit_typevar\<close>; the loop variables are
  \<open>bound\<close> and \<open>default\<close>.\<close>

definition typevar_step ::
  "(nl \<Rightarrow> 'v ast M) \<Rightarrow> nl \<Rightarrow> nat \<Rightarrow> 'v ast option \<times> 'v ast option
     \<Rightarrow> ('v ast option \<times> 'v ast option) M" where
  "typevar_step visit node i acc =
     (if length (children node) > i then
        bindE (item (children node) (int i)) (\<lambda>punc.
        if type_of punc = Token COLON then
          bindE (item (children node) (int i + 1)) (\<lambda>c.
          bindM (visit c) (\<lambda>b. return (Some b, snd acc)))
        else if type_of punc = Token EQUAL then
          bindE (item (children node) (int i + 1)) (\<lambda>c.
          bindM (visit c) (\<lambda>d. return (fst acc, Some d)))
        else return acc)
      else return acc)"

definition visit_typevar :: "'v env \<Rightarrow> (nl \<Rightarrow> 'v ast M) \<Rightarrow> nl \<Rightarrow> 'v ast M" where
  "visit_typevar env visit node =
     (if version_ge (version_info env) (3, 12) then
        bindM (for_each [1, 3] (None, None) (typevar_step visit node)) (\<lambda>(bound, default).
        if version_ge (version_info env) (3, 13) then
          bindE (item (children node) 0) (\<lambda>c0.
          bindE (value_of c0) (\<lambda>name.
          bindE (get_line_range node) (\<lambda>r.
          return (TypeVar name bound default r))))
        else if default \<noteq> None \<and> version_lt (version_info env) (3, 13) then
          raise (UnsupportedSyntaxError ''TypeVar default'')
        else
          bindE (item (children node) 0) (\<lambda>c0.
          bindE (value_of c0) (\<lambda>name.
          bindE (get_line_range node) (\<lambda>r.
          return (TypeVar name bound None r)))))
      else raise (UnsupportedSyntaxError ''TypeVar''))"

definition visit_paramspec :: "'v env \<Rightarrow> (nl \<Rightarrow> 'v ast M) \<Rightarrow> nl \<Rightarrow> 'v ast M" where
  "visit_paramspec env visit node =
     (if version_ge (version_info env) (3, 13) then
        bindM (if length (children node) = 4
               then bindE (item (children node) 3) (\<lambda>c. bindM (visit c) (\<lambda>d. return (Some d)))
               else return None) (\<lambda>default_value.
        bindE (item (children node) 0) (\<lambda>c0.
        bindE (value_of c0) (\<lambda>name.
        bindE (get_line_range node) (\<lambda>r.
        return (ParamSpec name default_value r)))))
      else if version_ge (version_info env) (3, 12) then
        bindE (item (children node) 0) (\<lambda>c0.
        bindE (value_of c0) (\<lambda>name.
        bindE (get_line_range node) (\<lambda>r.
        return (ParamSpec name None r))))
      else raise (UnsupportedSyntaxError ''ParamSpec''))"

definition visit_typevartuple :: "'v env \<Rightarrow> (nl \<Rightarrow> 'v ast M) \<Rightarrow> nl \<Rightarrow> 'v ast M" where
  "visit_typevartuple env visit node =
     (if version_ge (version_info env) (3, 13) then
        bindM (if length (children node) = 4
               then bindE (item (children node) 3) (\<lambda>c. bindM (visit c) (\<lambda>d. return (Some d)))
               else return None) (\<lambda>default_value.
        bindE (item (children node) 0) (\<lambda>c0.
        bindE (value_of c0) (\<lambda>name.
        bindE (get_line_range node) (\<lambda>r.
        return (TypeVarTuple name default_value r)))))
      else if version_ge (version_info env) (3, 12) then
        bindE (item (children node) 0) (\<lambda>c0.
        bindE (value_of c0) (\<lambda>name.
        bindE (get_line_range node) (\<lambda>r.
        return (TypeVarTuple name None r))))
      else raise (UnsupportedSyntaxError ''TypeVarTuple''))"

definition visit_typeparam :: "(nl \<Rightarrow> 'v ast M) \<Rightarrow> nl \<Rightarrow> 'v ast M" where
  "visit_typeparam visit node = bindE (item (children node) 0) visit"

subsection \<open>Module and statements\<close>

definition visit_file_input :: "(nl \<Rightarrow> 'v ast M) \<Rightarrow> nl \<Rightarrow> 'v ast M" where
  "visit_file_input visit node =
     bindM (map_M visit (butlast (children node))) (\<lambda>body.
     bindE (get_line_range node) (\<lambda>r.
     return (Module body r)))"

definition visit_simple_stmt :: "(nl \<Rightarrow> 'v ast M) \<Rightarrow> nl \<Rightarrow> 'v ast M" where
  "visit_simple_stmt visit node =
     bindE (item (children node) 0) (\<lambda>c0.
     bindM (visit c0) (\<lambda>val.
     if is_expr val then
       bindE (get_line_range c0) (\<lambda>r. return (Expr val r))
     else return val))"

subsection \<open>Comprehensions\<close>

text \<open>
  \<open>_compile_comprehension\<close> and \<open>_compile_comp_iter\<close> call each other. The rules below
  tell the definition which calls a sequencing depends on; the recursion descends into
  the children of the node, except that \<open>_compile_comp_iter\<close> passes its own node to
  \<open>_compile_comprehension\<close>.
\<close>

lemma bindM_cong [fundef_cong]:
  "m = m' \<Longrightarrow> (\<And>x s s'. m' s = (Inr x, s') \<Longrightarrow> f x = f' x) \<Longrightarrow> bindM m f = bindM m' f'"
  by (auto simp: bindM_def fun_eq_iff split: prod.splits sum.splits)

lemma bindE_cong [fundef_cong]:
  "r = r' \<Longrightarrow> (\<And>x. r' = Inr x \<Longrightarrow> f x = f' x) \<Longrightarrow> bindE r f = bindE r' f'"
  by (auto simp: bindE_def split: sum.splits)

lemma set_expr_context_cong [fundef_cong]:
  "c = c' \<Longrightarrow> m = m' \<Longrightarrow> set_expr_context c m = set_expr_context c' m'"
  by simp

lemma children_size: "c \<in> set (children n) \<Longrightarrow> size c < size n"
  by (cases n) (auto dest: mem_size)

lemma in_set_tl: "x \<in> set (tl xs) \<Longrightarrow> x \<in> set xs"
  by (cases xs) auto

lemma children_tl_size: "c \<in> set (tl (children n)) \<Longrightarrow> size c < size n"
  by (rule children_size) (rule in_set_tl)

function compile_comprehension ::
    "(nl \<Rightarrow> 'v ast M) \<Rightarrow> nl \<Rightarrow> 'v comprehension list M"
  and compile_comp_iter ::
    "(nl \<Rightarrow> 'v ast M) \<Rightarrow> nl \<Rightarrow> ('v ast list \<times> 'v comprehension list) M" where
  "compile_comprehension visit node =
     bindM (assert (type_of node = Symbol old_comp_for \<or> type_of node = Symbol comp_for)) (\<lambda>_.
     bindE (item (children node) 0) (\<lambda>c0.
     let is_async = (if type_of c0 = Token ASYNC then 1 else 0);
         cs = (if type_of c0 = Token ASYNC then tl (children node) else children node)
     in
     bindM (if length cs > 4
            then bindE (item cs 4) (\<lambda>c4. compile_comp_iter visit c4)
            else return ([], [])) (\<lambda>(ifs, comps).
     bindM (set_expr_context Store (bindE (item cs 1) visit)) (\<lambda>target.
     bindE (item cs 3) (\<lambda>c3.
     bindM (visit c3) (\<lambda>iter.
     return (Comprehension target iter ifs is_async # comps)))))))"
| "compile_comp_iter visit node =
     bindE (item (children node) 0) (\<lambda>c0.
     bindE (value_of c0) (\<lambda>v.
     if v = ''if'' then
       bindE (item (children node) 1) (\<lambda>c1.
       bindM (visit c1) (\<lambda>test.
       bindM (assert (is_expr test)) (\<lambda>_.
       bindM (if length (children node) > 2
              then bindE (item (children node) 2) (\<lambda>c2. compile_comp_iter visit c2)
              else return ([], [])) (\<lambda>(ifs, comps).
       return (test # ifs, comps)))))
     else
       bindM (compile_comprehension visit node) (\<lambda>comps. return ([], comps))))"
  by pat_completeness auto
termination
  apply (relation "measure (\<lambda>x. case x of Inl (v, n) \<Rightarrow> 2 * size n | Inr (v, n) \<Rightarrow> 2 * size n + 1)")
  apply (auto dest!: item_mem dest: children_size children_tl_size split: if_splits)
  done




subsection \<open>Assignment expressions\<close>

text \<open>\<open>_compile_named_expr\<close>. One caller passes a tuple that may hold \<open>None\<close>, so the
  children are optional nodes.\<close>

definition compile_named_expr :: "(nl \<Rightarrow> 'v ast M) \<Rightarrow> nl option list \<Rightarrow> 'v ast M" where
  "compile_named_expr visit cs =
     bindM (set_expr_context Store (bindE (item cs 0) (visit_opt visit))) (\<lambda>target.
     if \<not> is_Name target then
       raise (UnsupportedSyntaxError ''walrus target must be a name'')
     else
       bindE (item cs 2) (\<lambda>c2.
       bindM (visit_opt visit c2) (\<lambda>v.
       bindE (item cs 0) (\<lambda>c0.
       bindE (get_line_range_opt c0) (\<lambda>r0.
       bindE (get_line_range_opt c2) (\<lambda>r2.
       return (NamedExpr target v (unify_line_ranges r0 r2))))))))"

subsection \<open>Atoms\<close>

definition visit_testlist_gexp :: "(nl \<Rightarrow> 'v ast M) \<Rightarrow> nl \<Rightarrow> nl option \<Rightarrow> 'v ast M" where
  "visit_testlist_gexp visit node parent =
     (let parent_node = (case parent of None \<Rightarrow> node | Some p \<Rightarrow> p) in
      bindE (item (children node) 1) (\<lambda>c1.
      if type_of c1 = Symbol old_comp_for then
        bindE (item (children node) 0) (\<lambda>c0.
        bindM (visit c0) (\<lambda>elt.
        bindM (compile_comprehension visit c1) (\<lambda>comps.
        bindE (get_line_range parent_node) (\<lambda>r.
        return (GeneratorExp elt comps r)))))
      else
        bindM (map_M visit (every_other (children node))) (\<lambda>elts.
        bindM get_expr_context (\<lambda>ctx.
        bindE (get_line_range parent_node) (\<lambda>r.
        return (Tuple elts ctx r))))))"

text \<open>
  The \<open>while\<close> loop of \<open>visit_atom\<close> over the children of a \<open>dictsetmaker\<close>. Its
  variables are the consumer, \<open>is_dict\<close>, \<open>keys\<close>, \<open>values\<close> and \<open>elts\<close>. One run of the
  body either leaves the method with a result (\<open>Return\<close>) or goes on to the next test
  of the loop condition with new values of the variables (\<open>Continue\<close>).
\<close>

record 'v atom_state =
  st_consumer :: consumer
  st_is_dict :: bool
  st_keys :: "'v ast option list"
  st_values :: "'v ast list"
  st_elts :: "'v ast list"

datatype ('s, 'r) step = Continue 's | Return 'r

text \<open>\<open>if not consumer.done(): comma = consumer.consume(token.COMMA); assert comma is
  not None\<close>, the end of the loop body.\<close>

definition expect_comma :: "'v atom_state \<Rightarrow> ('v atom_state, 'v ast) step M" where
  "expect_comma st =
     (if \<not> done_c (st_consumer st) then
        bindE (consume (Some (Token COMMA)) (st_consumer st)) (\<lambda>(comma, c).
        bindM (assert (comma \<noteq> None)) (\<lambda>_.
        return (Continue (st\<lparr>st_consumer := c\<rparr>))))
      else return (Continue st))"

text \<open>\<open>if comp_for := consumer.consume(syms.comp_for): ...\<close>, then the comma.\<close>

definition comp_for_clause ::
  "(nl \<Rightarrow> 'v ast M) \<Rightarrow> nl \<Rightarrow> 'v atom_state \<Rightarrow> ('v atom_state, 'v ast) step M" where
  "comp_for_clause visit node st =
     bindE (consume (Some (Symbol comp_for)) (st_consumer st)) (\<lambda>(cf, c).
     case cf of
       Some comp_for_node \<Rightarrow>
         bindM (compile_comprehension visit comp_for_node) (\<lambda>comps.
         if st_is_dict st then
           bindM (assert (length (st_keys st) = 1)) (\<lambda>_.
           bindM (assert (length (st_values st) = 1)) (\<lambda>_.
           bindM (assert (st_elts st = [])) (\<lambda>_.
           bindE (item (st_keys st) 0) (\<lambda>k.
           bindE (item (st_values st) 0) (\<lambda>v.
           bindE (get_line_range node) (\<lambda>r.
           return (Return (DictComp k v comps r))))))))
         else
           bindM (assert (length (st_elts st) = 1)) (\<lambda>_.
           bindM (assert (st_keys st = [])) (\<lambda>_.
           bindM (assert (st_values st = [])) (\<lambda>_.
           bindE (item (st_elts st) 0) (\<lambda>e.
           bindE (get_line_range node) (\<lambda>r.
           return (Return (SetComp e comps r))))))))
     | None \<Rightarrow> expect_comma (st\<lparr>st_consumer := c\<rparr>))"

definition visit_atom_body ::
  "(nl \<Rightarrow> 'v ast M) \<Rightarrow> nl \<Rightarrow> 'v atom_state \<Rightarrow> ('v atom_state, 'v ast) step M" where
  "visit_atom_body visit node st =
     bindE (consume (Some (Token DOUBLESTAR)) (st_consumer st)) (\<lambda>(dstar, c1).
     if dstar \<noteq> None then
       bindE (consume None c1) (\<lambda>(e, c2).
       bindM (visit_opt visit e) (\<lambda>v.
       expect_comma (st\<lparr>st_consumer := c2, st_is_dict := True,
                        st_keys := st_keys st @ [None], st_values := st_values st @ [v]\<rparr>)))
     else
       bindE (consume (Some (Symbol star_expr)) c1) (\<lambda>(star, c2).
       case star of
         Some star_node \<Rightarrow>
           bindE (consume None c2) (\<lambda>(e, c3).
           bindM (visit_opt visit e) (\<lambda>v.
           bindM get_expr_context (\<lambda>ctx.
           bindE (get_line_range star_node) (\<lambda>r.
           expect_comma (st\<lparr>st_consumer := c3,
                            st_elts := st_elts st @ [Starred v ctx r]\<rparr>)))))
       | None \<Rightarrow>
           bindE (consume None c2) (\<lambda>(key_node, c3).
           bindE (consume (Some (Token COLONEQUAL)) c3) (\<lambda>(walrus, c4).
           if walrus \<noteq> None then
             bindE (consume None c4) (\<lambda>(value_node, c5).
             bindM (compile_named_expr visit [key_node, walrus, value_node]) (\<lambda>elt.
             comp_for_clause visit node
               (st\<lparr>st_consumer := c5, st_elts := st_elts st @ [elt]\<rparr>)))
           else
             bindE (consume (Some (Token COLON)) c4) (\<lambda>(colon, c5).
             if colon \<noteq> None then
               bindM (visit_opt visit key_node) (\<lambda>k.
               bindE (consume None c5) (\<lambda>(value_node, c6).
               bindM (visit_opt visit value_node) (\<lambda>v.
               comp_for_clause visit node
                 (st\<lparr>st_consumer := c6, st_is_dict := True,
                     st_keys := st_keys st @ [Some k], st_values := st_values st @ [v]\<rparr>))))
             else
               bindM (visit_opt visit key_node) (\<lambda>e.
               comp_for_clause visit node
                 (st\<lparr>st_consumer := c5, st_elts := st_elts st @ [e]\<rparr>)))))))"

text \<open>One run of the loop body moves the consumer forward, so the loop ends.\<close>

lemma consume_Inr:
  "consume t c = Inr (r, c') \<Longrightarrow>
     cons_children c' = cons_children c \<and> index c \<le> index c' \<and> (r \<noteq> None \<longrightarrow> index c < index c')"
  by (auto simp: consume_def item_def split: if_splits)

lemma consume_any:
  "\<not> done_c c \<Longrightarrow> consume None c = Inr (r, c') \<Longrightarrow>
     cons_children c' = cons_children c \<and> index c < index c'"
  by (auto simp: consume_def item_def done_c_def split: if_splits)

lemma bindE_Inr:
  "bindE r f s = (Inr y, s') \<Longrightarrow> \<exists>x. r = Inr x \<and> f x s = (Inr y, s')"
  by (cases r) (auto simp: bindE_def raise_def)

lemma bindM_Inr:
  "bindM m f s = (Inr y, s') \<Longrightarrow> \<exists>x s1. m s = (Inr x, s1) \<and> f x s1 = (Inr y, s')"
  by (auto simp: bindM_def split: prod.splits sum.splits)

lemma return_Inr: "return x s = (Inr y, s') \<Longrightarrow> y = x \<and> s' = s"
  by (auto simp: return_def)

lemma raise_Inr: "raise e s = (Inr y, s') \<Longrightarrow> False"
  by (auto simp: raise_def)

lemma expect_comma_advances:
  "expect_comma st s = (Inr (Continue st'), s') \<Longrightarrow>
     cons_children (st_consumer st') = cons_children (st_consumer st)
     \<and> index (st_consumer st) \<le> index (st_consumer st')"
  unfolding expect_comma_def
  by (auto dest!: bindE_Inr bindM_Inr return_Inr consume_Inr split: if_splits)

lemma comp_for_clause_advances:
  "comp_for_clause visit node st s = (Inr (Continue st'), s') \<Longrightarrow>
     cons_children (st_consumer st') = cons_children (st_consumer st)
     \<and> index (st_consumer st) \<le> index (st_consumer st')"
  unfolding comp_for_clause_def
  by (auto dest!: bindE_Inr bindM_Inr return_Inr consume_Inr expect_comma_advances
      split: if_splits option.splits)

lemma consume_cases:
  "consume t c = Inr (r, c') \<Longrightarrow>
     (r = None \<and> c' = c) \<or>
     (r \<noteq> None \<and> index c < length (cons_children c) \<and> c' = c\<lparr>index := Suc (index c)\<rparr>)"
  by (auto simp: consume_def item_def split: if_splits)

lemma visit_atom_body_advances:
  "\<not> done_c (st_consumer st) \<Longrightarrow>
   visit_atom_body visit node st s = (Inr (Continue st'), s') \<Longrightarrow>
     cons_children (st_consumer st') = cons_children (st_consumer st)
     \<and> index (st_consumer st) < index (st_consumer st')"
  unfolding visit_atom_body_def
  by (auto dest!: bindE_Inr bindM_Inr comp_for_clause_advances expect_comma_advances
      consume_cases split: if_splits option.splits simp: done_c_def visit_opt_def raise_def)

function visit_atom_loop :: "(nl \<Rightarrow> 'v ast M) \<Rightarrow> nl \<Rightarrow> 'v atom_state \<Rightarrow> 'v ast M" where
  "visit_atom_loop visit node st =
     (if \<not> done_c (st_consumer st) then
        bindM (visit_atom_body visit node st) (\<lambda>r.
        case r of
          Return x \<Rightarrow> return x
        | Continue st' \<Rightarrow> visit_atom_loop visit node st')
      else if st_is_dict st then
        bindM (assert (st_elts st = [])) (\<lambda>_.
        bindE (get_line_range node) (\<lambda>r.
        return (Dict (st_keys st) (st_values st) r)))
      else
        bindM (assert (st_keys st = [])) (\<lambda>_.
        bindM (assert (st_values st = [])) (\<lambda>_.
        bindM get_expr_context (\<lambda>ctx.
        bindE (get_line_range node) (\<lambda>r.
        return (Set (st_elts st) ctx r))))))"
  by pat_completeness auto
termination
proof (relation "measure (\<lambda>(visit, node, st).
          length (cons_children (st_consumer st)) - index (st_consumer st))", goal_cases)
  case 1
  show ?case by simp
next
  case (2 visit node st x s s' st')
  then show ?case
    using visit_atom_body_advances [of st visit node s st' s']
    by (auto simp: done_c_def)
qed

definition visit_atom :: "(nl \<Rightarrow> 'v ast M) \<Rightarrow> nl \<Rightarrow> 'v ast M" where
  "visit_atom visit node =
     bindE (item (children node) 0) (\<lambda>c0.
     if type_of c0 = Token LPAR then
       (if length (children node) = 2 then
          bindM get_expr_context (\<lambda>ctx.
          bindE (get_line_range node) (\<lambda>r.
          return (Tuple [] ctx r)))
        else
          bindE (item (children node) 1) (\<lambda>c1.
          if type_of c1 = Symbol testlist_gexp
          then visit_testlist_gexp visit c1 (Some node)
          else visit c1))
     else if type_of c0 = Token LSQB then
       (if length (children node) = 2 then
          bindM get_expr_context (\<lambda>ctx.
          bindE (get_line_range node) (\<lambda>r.
          return (List [] ctx r)))
        else
          bindE (item (children node) 1) (\<lambda>inner.
          if type_of inner \<noteq> Symbol listmaker then
            bindM (visit inner) (\<lambda>e.
            bindM get_expr_context (\<lambda>ctx.
            bindE (get_line_range node) (\<lambda>r.
            return (List [e] ctx r))))
          else
            bindE (item (children inner) 1) (\<lambda>i1.
            if type_of i1 = Symbol old_comp_for then
              bindE (item (children inner) 0) (\<lambda>i0.
              bindM (visit i0) (\<lambda>elt.
              bindM (compile_comprehension visit i1) (\<lambda>comps.
              bindE (get_line_range node) (\<lambda>r.
              return (ListComp elt comps r)))))
            else
              bindM (map_M visit (every_other (children inner))) (\<lambda>elts.
              bindM get_expr_context (\<lambda>ctx.
              bindE (get_line_range node) (\<lambda>r.
              return (List elts ctx r)))))))
     else if type_of c0 = Token LBRACE then
       (if length (children node) = 2 then
          bindE (get_line_range node) (\<lambda>r.
          return (Dict [] [] r))
        else
          bindE (item (children node) 1) (\<lambda>inner.
          if type_of inner \<noteq> Symbol dictsetmaker then
            bindM (visit inner) (\<lambda>e.
            bindM get_expr_context (\<lambda>ctx.
            bindE (get_line_range node) (\<lambda>r.
            return (Set [e] ctx r))))
          else
            visit_atom_loop visit node
              \<lparr>st_consumer = \<lparr>cons_children = children inner, index = 0\<rparr>,
               st_is_dict = False, st_keys = [], st_values = [], st_elts = []\<rparr>))
     else if type_of c0 = Token DOT then
       bindM (assert (length (children node) = 3)) (\<lambda>_.
       bindM (assert (list_all (\<lambda>child. type_of child = Token DOT) (children node))) (\<lambda>_.
       bindE (get_line_range node) (\<lambda>r.
       return (Constant Ellipsis r))))
     else if type_of c0 = Token BACKQUOTE then
       bindE (get_line_range node) (\<lambda>r.
       let callee = Name ''repr'' Load r in
       bindE (item (children node) 1) (\<lambda>c1.
       bindM (visit c1) (\<lambda>arg.
       bindE (get_line_range node) (\<lambda>r'.
       return (Call callee [arg] [] r')))))
     else raise (NotImplementedError (Repr node)))"

subsection \<open>Operators\<close>

text \<open>\<open>range(2, n, 2)\<close>.\<close>

definition range_2_step_2 :: "nat \<Rightarrow> nat list" where
  "range_2_step_2 n = filter even [2 ..< n]"

text \<open>The body of the loop of \<open>visit_expr\<close>; the loop variable is \<open>op\<close>.\<close>

definition visit_expr_step ::
  "(nl \<Rightarrow> 'v ast M) \<Rightarrow> nl \<Rightarrow> line_range \<Rightarrow> nat \<Rightarrow> 'v ast \<Rightarrow> 'v ast M" where
  "visit_expr_step visit node begin_range child_index op =
     bindE (item (children node) (int child_index)) (\<lambda>child.
     bindE (item (children node) (int child_index - 1)) (\<lambda>operator.
     bindE (lookup TOKEN_TYPE_TO_BINOP (type_of operator)) (\<lambda>bop.
     bindM (visit child) (\<lambda>right.
     bindE (get_line_range child) (\<lambda>r.
     return (BinOp op bop right (unify_line_ranges begin_range r)))))))"

definition visit_expr :: "(nl \<Rightarrow> 'v ast M) \<Rightarrow> nl \<Rightarrow> 'v ast M" where
  "visit_expr visit node =
     bindE (item (children node) 0) (\<lambda>c0.
     bindM (visit c0) (\<lambda>op.
     bindE (get_line_range c0) (\<lambda>begin_range.
     for_each (range_2_step_2 (length (children node))) op
       (visit_expr_step visit node begin_range))))"

text \<open>The resolution of the operator in the loop of \<open>visit_comparison\<close>.\<close>

definition compare_operator :: "nl \<Rightarrow> cmpop M" where
  "compare_operator operator_node =
     (if type_of operator_node = Token NAME then
        bindE (value_of operator_node) (\<lambda>v. bindE (lookup NAME_TO_COMPARE_OP v) return)
      else if is_Leaf operator_node then
        bindE (lookup TOKEN_TYPE_TO_COMPARE_OP (type_of operator_node)) return
      else
        bindM (assert (length (children operator_node) = 2)) (\<lambda>_.
        bindE (item (children operator_node) 0) (\<lambda>o0.
        bindE (value_of o0) (\<lambda>v0.
        if v0 = ''not'' then
          bindE (item (children operator_node) 1) (\<lambda>o1.
          bindE (value_of o1) (\<lambda>v1.
          bindM (assert (v1 = ''in'')) (\<lambda>_.
          return NotIn)))
        else
          bindM (assert (v0 = ''is'')) (\<lambda>_.
          bindE (item (children operator_node) 1) (\<lambda>o1.
          bindE (value_of o1) (\<lambda>v1.
          bindM (assert (v1 = ''not'')) (\<lambda>_.
          return IsNot))))))))"

text \<open>The body of the loop of \<open>visit_comparison\<close>; the loop variables are \<open>ops\<close> and
  \<open>comparators\<close>.\<close>

definition visit_comparison_step ::
  "(nl \<Rightarrow> 'v ast M) \<Rightarrow> nl \<Rightarrow> nat \<Rightarrow> cmpop list \<times> 'v ast list
     \<Rightarrow> (cmpop list \<times> 'v ast list) M" where
  "visit_comparison_step visit node child_index acc =
     bindE (item (children node) (int child_index)) (\<lambda>child.
     bindE (item (children node) (int child_index - 1)) (\<lambda>operator_node.
     bindM (compare_operator operator_node) (\<lambda>operator.
     bindM (visit child) (\<lambda>right.
     bindM (assert (is_expr right)) (\<lambda>_.
     return (fst acc @ [operator], snd acc @ [right]))))))"

definition visit_comparison :: "(nl \<Rightarrow> 'v ast M) \<Rightarrow> nl \<Rightarrow> 'v ast M" where
  "visit_comparison visit node =
     bindE (item (children node) 0) (\<lambda>c0.
     bindM (visit c0) (\<lambda>left.
     bindM (for_each (range_2_step_2 (length (children node))) ([], [])
              (visit_comparison_step visit node)) (\<lambda>(ops, comparators).
     bindE (get_line_range node) (\<lambda>r.
     return (Compare left ops comparators r)))))"

definition visit_star_expr :: "(nl \<Rightarrow> 'v ast M) \<Rightarrow> nl \<Rightarrow> 'v ast M" where
  "visit_star_expr visit node =
     bindE (item (children node) 1) (\<lambda>c1.
     bindM (visit c1) (\<lambda>v.
     bindM get_expr_context (\<lambda>ctx.
     bindE (get_line_range node) (\<lambda>r.
     return (Starred v ctx r)))))"

definition visit_not_test :: "(nl \<Rightarrow> 'v ast M) \<Rightarrow> nl \<Rightarrow> 'v ast M" where
  "visit_not_test visit node =
     bindE (item (children node) 1) (\<lambda>c1.
     bindM (visit c1) (\<lambda>operand.
     bindE (get_line_range node) (\<lambda>r.
     return (UnaryOp Not_op operand r))))"

text \<open>The loop of \<open>visit_and_test\<close> and \<open>visit_or_test\<close>.\<close>

definition visit_operand :: "(nl \<Rightarrow> 'v ast M) \<Rightarrow> nl \<Rightarrow> 'v ast M" where
  "visit_operand visit child =
     bindM (visit child) (\<lambda>operand.
     bindM (assert (is_expr operand)) (\<lambda>_.
     return operand))"

definition visit_and_test :: "(nl \<Rightarrow> 'v ast M) \<Rightarrow> nl \<Rightarrow> 'v ast M" where
  "visit_and_test visit node =
     bindM (map_M (visit_operand visit) (every_other (children node))) (\<lambda>operands.
     bindE (get_line_range node) (\<lambda>r.
     return (BoolOp And operands r)))"

definition visit_or_test :: "(nl \<Rightarrow> 'v ast M) \<Rightarrow> nl \<Rightarrow> 'v ast M" where
  "visit_or_test visit node =
     bindM (map_M (visit_operand visit) (every_other (children node))) (\<lambda>operands.
     bindE (get_line_range node) (\<lambda>r.
     return (BoolOp Or operands r)))"

definition visit_test :: "(nl \<Rightarrow> 'v ast M) \<Rightarrow> nl \<Rightarrow> 'v ast M" where
  "visit_test visit node =
     bindM (assert (length (children node) = 5)) (\<lambda>_.
     bindE (item (children node) 1) (\<lambda>c1.
     bindE (value_of c1) (\<lambda>v1.
     bindM (assert (v1 = ''if'')) (\<lambda>_.
     bindE (item (children node) 3) (\<lambda>c3.
     bindE (value_of c3) (\<lambda>v3.
     bindM (assert (v3 = ''else'')) (\<lambda>_.
     bindE (item (children node) 2) (\<lambda>c2.
     bindM (visit c2) (\<lambda>tst.
     bindE (item (children node) 0) (\<lambda>c0.
     bindM (visit c0) (\<lambda>body.
     bindE (item (children node) 4) (\<lambda>c4.
     bindM (visit c4) (\<lambda>orelse.
     bindE (get_line_range node) (\<lambda>r.
     return (IfExp tst body orelse r)))))))))))))))"

definition visit_factor :: "(nl \<Rightarrow> 'v ast M) \<Rightarrow> nl \<Rightarrow> 'v ast M" where
  "visit_factor visit node =
     bindE (item (children node) 0) (\<lambda>c0.
     bindE (lookup TOKEN_TYPE_TO_UNARY_OP (type_of c0)) (\<lambda>uop.
     bindE (item (children node) 1) (\<lambda>c1.
     bindM (visit c1) (\<lambda>operand.
     bindE (get_line_range node) (\<lambda>r.
     return (UnaryOp uop operand r))))))"

subsection \<open>Calls, subscripts and attributes\<close>

text \<open>The body of the loop of \<open>_compile_arglist\<close>; the loop variables are \<open>args\<close> and
  \<open>keywords\<close>.\<close>

definition compile_arglist_step ::
  "(nl \<Rightarrow> 'v ast M) \<Rightarrow> nl \<Rightarrow> nl \<Rightarrow> nl \<Rightarrow> 'v ast list \<times> 'v keyword list
     \<Rightarrow> ('v ast list \<times> 'v keyword list) M" where
  "compile_arglist_step visit node parent_node argument acc =
     (if is_Leaf argument then
        bindM (visit argument) (\<lambda>arg.
        bindM (assert (is_expr arg)) (\<lambda>_.
        return (fst acc @ [arg], snd acc)))
      else
        bindE (item (children argument) 0) (\<lambda>a0.
        if type_of a0 = Token STAR then
          bindE (item (children argument) 1) (\<lambda>a1.
          bindM (visit a1) (\<lambda>v.
          bindE (get_line_range argument) (\<lambda>r.
          return (fst acc @ [Starred v Load r], snd acc))))
        else if type_of a0 = Token DOUBLESTAR then
          bindE (item (children argument) 1) (\<lambda>a1.
          bindM (visit a1) (\<lambda>v.
          bindE (get_line_range argument) (\<lambda>r.
          return (fst acc, snd acc @ [Keyword None v r]))))
        else if length (children argument) = 1 then
          bindM (visit a0) (\<lambda>e.
          bindM (assert (is_expr e)) (\<lambda>_.
          return (fst acc @ [e], snd acc)))
        else if length (children argument) = 2 then
          bindM (visit a0) (\<lambda>inner.
          bindE (item (children argument) 1) (\<lambda>a1.
          bindM (compile_comprehension visit a1) (\<lambda>comps.
          bindE (get_line_range parent_node) (\<lambda>r.
          return (fst acc @ [GeneratorExp inner comps r], snd acc)))))
        else
          bindE (item (children argument) 1) (\<lambda>a1.
          if type_of a1 = Token COLONEQUAL then
            bindM (compile_named_expr visit (map Some (children argument))) (\<lambda>walrus.
            if length (children argument) > 3 then
              bindE (item (children node) 3) (\<lambda>n3.
              bindM (compile_comprehension visit n3) (\<lambda>comps.
              bindE (get_line_range parent_node) (\<lambda>r.
              return (fst acc @ [GeneratorExp walrus comps r], snd acc))))
            else return (fst acc @ [walrus], snd acc))
          else if type_of a1 = Token EQUAL then
            bindM (set_expr_context Store (visit a0)) (\<lambda>target.
            if \<not> is_Name target then
              raise (UnsupportedSyntaxError ''keyword argument target must be a name'')
            else
              bindE (item (children argument) 2) (\<lambda>a2.
              bindM (visit a2) (\<lambda>v.
              bindE (name_id target) (\<lambda>arg.
              bindE (get_line_range argument) (\<lambda>r.
              return (fst acc, snd acc @ [Keyword (Some arg) v r]))))))
          else raise (NotImplementedError (Repr argument)))))"

definition compile_arglist ::
  "(nl \<Rightarrow> 'v ast M) \<Rightarrow> nl \<Rightarrow> nl \<Rightarrow> ('v ast list \<times> 'v keyword list) M" where
  "compile_arglist visit node parent_node =
     (let arguments =
        (if is_Leaf node \<or> type_of node \<noteq> Symbol arglist then [node]
         else every_other (children node))
      in for_each arguments ([], []) (compile_arglist_step visit node parent_node))"

text \<open>The body of the loop of \<open>_visit_power_without_await\<close>; the loop variable is
  \<open>atom\<close>.\<close>

definition visit_trailer ::
  "(nl \<Rightarrow> 'v ast M) \<Rightarrow> line_range \<Rightarrow> nl \<Rightarrow> 'v ast \<Rightarrow> 'v ast M" where
  "visit_trailer visit begin_range trailer atom_v =
     bindE (item (children trailer) 0) (\<lambda>t0.
     if type_of t0 = Token LPAR then
       bindM (if length (children trailer) = 2 then return ([], [])
              else bindE (item (children trailer) 1) (\<lambda>t1.
                   compile_arglist visit t1 trailer)) (\<lambda>(args, keywords).
       bindE (item (children trailer) (- 1)) (\<lambda>final.
       bindE (get_line_range final) (\<lambda>r.
       return (Call atom_v args keywords (unify_line_ranges begin_range r)))))
     else if type_of t0 = Token LSQB then
       bindE (item (children trailer) 1) (\<lambda>t1.
       bindM (visit t1) (\<lambda>subscript_v.
       bindM get_expr_context (\<lambda>ctx.
       bindE (item (children trailer) (- 1)) (\<lambda>final.
       bindE (get_line_range final) (\<lambda>r.
       return (Subscript atom_v subscript_v ctx (unify_line_ranges begin_range r)))))))
     else if type_of t0 = Token DOT then
       bindE (item (children trailer) 1) (\<lambda>t1.
       bindE (value_of t1) (\<lambda>attr.
       bindM get_expr_context (\<lambda>ctx.
       bindE (get_line_range t1) (\<lambda>r.
       return (Attribute atom_v attr ctx (unify_line_ranges begin_range r))))))
     else raise (NotImplementedError (Repr trailer)))"

definition visit_power_without_await :: "(nl \<Rightarrow> 'v ast M) \<Rightarrow> nl list \<Rightarrow> 'v ast M" where
  "visit_power_without_await visit cs =
     bindE (item cs 0) (\<lambda>c0.
     bindM (visit c0) (\<lambda>atom_v.
     bindE (get_line_range c0) (\<lambda>begin_range.
     for_each (tl cs) atom_v (visit_trailer visit begin_range))))"

definition visit_power_without_power :: "(nl \<Rightarrow> 'v ast M) \<Rightarrow> nl list \<Rightarrow> 'v ast M" where
  "visit_power_without_power visit cs =
     bindE (item cs 0) (\<lambda>c0.
     if type_of c0 = Token AWAIT then
       bindE (get_line_range c0) (\<lambda>r0.
       bindE (item cs (- 1)) (\<lambda>final.
       bindE (get_line_range final) (\<lambda>r1.
       bindM (visit_power_without_await visit (tl cs)) (\<lambda>v.
       return (Await v (unify_line_ranges r0 r1))))))
     else visit_power_without_await visit cs)"

definition visit_power :: "(nl \<Rightarrow> 'v ast M) \<Rightarrow> nl \<Rightarrow> 'v ast M" where
  "visit_power visit node =
     (let cs = children node in
      if length cs > 2
         \<and> (case item cs (- 2) of Inl e \<Rightarrow> False | Inr c \<Rightarrow> type_of c = Token DOUBLESTAR)
      then
        bindE (item cs (- 1)) (\<lambda>final.
        bindM (visit final) (\<lambda>operand.
        bindM (visit_power_without_power visit (butlast (butlast cs))) (\<lambda>left.
        bindE (get_line_range node) (\<lambda>r.
        return (BinOp left Pow_op operand r)))))
      else visit_power_without_power visit cs)"

text \<open>
  \<open>visit_subscript\<close> first compares the text of the middle child with the integer
  \<open>token.COLONEQUAL\<close>; a Python string never equals an integer.
\<close>

definition str_eq_int :: "string \<Rightarrow> tok \<Rightarrow> bool" where
  "str_eq_int v t = False"

definition visit_subscript :: "(nl \<Rightarrow> 'v ast M) \<Rightarrow> nl \<Rightarrow> 'v ast M" where
  "visit_subscript visit node =
     (if length (children node) = 3
         \<and> (case item (children node) 1 of
               Inl e \<Rightarrow> False
             | Inr c1 \<Rightarrow> is_Leaf c1
                 \<and> (case value_of c1 of Inl e \<Rightarrow> False | Inr v \<Rightarrow> str_eq_int v COLONEQUAL))
      then compile_named_expr visit (map Some (children node))
      else
        bindE (consume (Some (Token COLON)) \<lparr>cons_children = children node, index = 0\<rparr>)
          (\<lambda>(colon, c1).
        bindM (if colon = None then
                 bindE (consume None c1) (\<lambda>(lower_node, c2).
                 bindM (visit_opt visit lower_node) (\<lambda>lower.
                 bindE (consume (Some (Token COLON)) c2) (\<lambda>(colon2, c3).
                 bindM (assert (colon2 \<noteq> None)) (\<lambda>_.
                 return (Some lower, c3)))))
               else return (None, c1)) (\<lambda>(lower, c4).
        bindE (consume (Some (Symbol sliceop)) c4) (\<lambda>(sliceop1, c5).
        bindM (case sliceop1 of
                 Some sliceop_node \<Rightarrow>
                   bindE (item (children sliceop_node) 1) (\<lambda>s1.
                   bindM (visit s1) (\<lambda>step. return (None, Some step)))
               | None \<Rightarrow>
                   bindE (consume (Some (Token COLON)) c5) (\<lambda>(colon3, c6).
                   if colon3 = None then
                     bindE (consume None c6) (\<lambda>(upper_node, c7).
                     bindM (case upper_node of
                              None \<Rightarrow> return None
                            | Some u \<Rightarrow> bindM (visit u) (\<lambda>x. return (Some x))) (\<lambda>upper.
                     bindE (consume (Some (Symbol sliceop)) c7) (\<lambda>(sliceop2, c8).
                     case sliceop2 of
                       Some sliceop_node \<Rightarrow>
                         bindE (item (children sliceop_node) 1) (\<lambda>s1.
                         bindM (visit s1) (\<lambda>step. return (upper, Some step)))
                     | None \<Rightarrow> return (upper, None))))
                   else return (None, None))) (\<lambda>(upper, step).
        bindE (get_line_range node) (\<lambda>r.
        return (Slice lower upper step r)))))))"

definition visit_subscriptlist :: "(nl \<Rightarrow> 'v ast M) \<Rightarrow> nl \<Rightarrow> 'v ast M" where
  "visit_subscriptlist visit node =
     bindM (map_M visit (every_other (children node))) (\<lambda>elts.
     bindM get_expr_context (\<lambda>ctx.
     bindE (get_line_range node) (\<lambda>r.
     return (Tuple elts ctx r))))"

section \<open>Dispatch\<close>

text \<open>
  \<open>Visitor.visit\<close>: \<open>getattr(self, f"visit_{name}", self.generic_visit)(node)\<close>, for
  the methods that \<open>Compiler\<close> defines. \<open>visit_xor_expr\<close>, \<open>visit_and_expr\<close>,
  \<open>visit_shift_expr\<close>, \<open>visit_arith_expr\<close> and \<open>visit_term\<close> are \<open>visit_expr\<close>.
\<close>

definition dispatch :: "'v env \<Rightarrow> (nl \<Rightarrow> 'v ast M) \<Rightarrow> nl \<Rightarrow> 'v ast M" where
  "dispatch env visit node =
     (case node of
        Leaf t v l c \<Rightarrow>
          (case t of
             NAME \<Rightarrow> visit_NAME node
           | NUMBER \<Rightarrow> visit_NUMBER env node
           | STRING \<Rightarrow> visit_STRING env node
           | COLON \<Rightarrow> visit_COLON node
           | _ \<Rightarrow> generic_visit node)
      | Node y cs \<Rightarrow>
          (case y of
             typevar \<Rightarrow> visit_typevar env visit node
           | paramspec \<Rightarrow> visit_paramspec env visit node
           | typevartuple \<Rightarrow> visit_typevartuple env visit node
           | typeparam \<Rightarrow> visit_typeparam visit node
           | file_input \<Rightarrow> visit_file_input visit node
           | simple_stmt \<Rightarrow> visit_simple_stmt visit node
           | testlist_gexp \<Rightarrow> visit_testlist_gexp visit node None
           | atom \<Rightarrow> visit_atom visit node
           | expr \<Rightarrow> visit_expr visit node
           | xor_expr \<Rightarrow> visit_expr visit node
           | and_expr \<Rightarrow> visit_expr visit node
           | shift_expr \<Rightarrow> visit_expr visit node
           | arith_expr \<Rightarrow> visit_expr visit node
           | term_sym \<Rightarrow> visit_expr visit node
           | comparison \<Rightarrow> visit_comparison visit node
           | star_expr \<Rightarrow> visit_star_expr visit node
           | not_test \<Rightarrow> visit_not_test visit node
           | and_test \<Rightarrow> visit_and_test visit node
           | or_test \<Rightarrow> visit_or_test visit node
           | test \<Rightarrow> visit_test visit node
           | factor \<Rightarrow> visit_factor visit node
           | power_sym \<Rightarrow> visit_power visit node
           | subscript \<Rightarrow> visit_subscript visit node
           | subscriptlist \<Rightarrow> visit_subscriptlist visit node
           | _ \<Rightarrow> generic_visit node))"

section \<open>Every method calls \<open>visit\<close> on smaller nodes only\<close>

lemma bindE_eqI:
  "(\<And>x. r = Inr x \<Longrightarrow> f x = g x) \<Longrightarrow> bindE r f = bindE r g"
  by (cases r) (auto simp: bindE_def)

lemma bindM_eqI:
  "m = m' \<Longrightarrow> (\<And>x s s'. m s = (Inr x, s') \<Longrightarrow> f x = g x) \<Longrightarrow> bindM m f = bindM m' g"
  by (auto simp: bindM_def fun_eq_iff split: prod.splits sum.splits)

lemma if_eqI:
  "(c \<Longrightarrow> a = a') \<Longrightarrow> (\<not> c \<Longrightarrow> b = b') \<Longrightarrow> (if c then a else b) = (if c then a' else b')"
  by simp

lemma case_prod_eqI:
  "(\<And>a b. p = (a, b) \<Longrightarrow> f a b = g a b) \<Longrightarrow> case_prod f p = case_prod g p"
  by (cases p) simp

lemma case_option_eqI:
  "(x = None \<Longrightarrow> a = a') \<Longrightarrow> (\<And>y. x = Some y \<Longrightarrow> f y = g y)
     \<Longrightarrow> case_option a f x = case_option a' g x"
  by (cases x) simp_all

lemma for_each_eqI:
  "(\<And>x acc. x \<in> set xs \<Longrightarrow> f x acc = g x acc) \<Longrightarrow> for_each xs a f = for_each xs a g"
  by (induction xs arbitrary: a) (auto intro!: bindM_eqI)

lemma map_M_eqI:
  "(\<And>x. x \<in> set xs \<Longrightarrow> f x = g x) \<Longrightarrow> map_M f xs = map_M g xs"
  by (induction xs) (auto intro!: bindM_eqI)

lemma set_expr_context_eqI:
  "m = m' \<Longrightarrow> set_expr_context c m = set_expr_context c m'"
  by simp

lemma visit_opt_eqI:
  "(\<And>n. e = Some n \<Longrightarrow> v n = v' n) \<Longrightarrow> visit_opt v e = visit_opt v' e"
  by (cases e) (auto simp: visit_opt_def)

lemmas eqI = refl bindE_eqI bindM_eqI if_eqI case_prod_eqI case_option_eqI for_each_eqI
  map_M_eqI set_expr_context_eqI visit_opt_eqI

lemma item_children_size: "item (children n) i = Inr c \<Longrightarrow> size c < size n"
  by (rule children_size) (rule item_mem)

lemma visit_simple_stmt_eqI:
  assumes "\<And>c. size c < size n \<Longrightarrow> v c = v' c"
  shows "visit_simple_stmt v n = visit_simple_stmt v' n"
  unfolding visit_simple_stmt_def
  by (intro eqI) (auto intro!: assms dest!: item_children_size)

lemma range_2_step_2_mem: "i \<in> set (range_2_step_2 n) \<Longrightarrow> i < n"
  by (auto simp: range_2_step_2_def)

lemma visit_expr_eqI:
  assumes "\<And>c. size c < size n \<Longrightarrow> v c = v' c"
  shows "visit_expr v n = visit_expr v' n"
  unfolding visit_expr_def visit_expr_step_def
  by (intro eqI) (auto intro!: assms dest!: item_children_size)


lemma typevar_eqI:
  assumes "\<And>c. size c < size n \<Longrightarrow> v c = v' c"
  shows "visit_typevar env v n = visit_typevar env v' n"
  unfolding visit_typevar_def typevar_step_def
  by (intro eqI) (auto intro!: assms dest!: item_children_size)

lemma paramspec_eqI:
  assumes "\<And>c. size c < size n \<Longrightarrow> v c = v' c"
  shows "visit_paramspec env v n = visit_paramspec env v' n"
  unfolding visit_paramspec_def
  by (intro eqI) (auto intro!: assms dest!: item_children_size)

lemma typevartuple_eqI:
  assumes "\<And>c. size c < size n \<Longrightarrow> v c = v' c"
  shows "visit_typevartuple env v n = visit_typevartuple env v' n"
  unfolding visit_typevartuple_def
  by (intro eqI) (auto intro!: assms dest!: item_children_size)

lemma typeparam_eqI:
  assumes "\<And>c. size c < size n \<Longrightarrow> v c = v' c"
  shows "visit_typeparam v n = visit_typeparam v' n"
  unfolding visit_typeparam_def
  by (intro eqI) (auto intro!: assms dest!: item_children_size)

lemma in_set_butlast_children: "c \<in> set (butlast (children n)) \<Longrightarrow> size c < size n"
  by (rule children_size) (rule in_set_butlastD)

lemma every_other_subset: "x \<in> set (every_other xs) \<Longrightarrow> x \<in> set xs"
  by (induction xs rule: every_other.induct) auto

lemma in_set_every_other_children: "c \<in> set (every_other (children n)) \<Longrightarrow> size c < size n"
  by (rule children_size) (rule every_other_subset)

lemmas smaller = item_children_size in_set_butlast_children in_set_every_other_children
  children_size children_tl_size

lemma file_input_eqI:
  assumes "\<And>c. size c < size n \<Longrightarrow> v c = v' c"
  shows "visit_file_input v n = visit_file_input v' n"
  unfolding visit_file_input_def
  by (intro eqI) (auto intro!: assms dest!: smaller)

declare compile_comprehension.simps [simp del] compile_comp_iter.simps [simp del]
  visit_atom_loop.simps [simp del]

lemma compile_comprehension_eqI_aux:
  fixes v v' :: "nl \<Rightarrow> 'v ast M"
  shows "(\<And>c. size c < size n \<Longrightarrow> v c = v' c) \<Longrightarrow>
           compile_comprehension v n = compile_comprehension v' n"
    and "(\<And>c. size c < size m \<Longrightarrow> v c = v' c) \<Longrightarrow>
           compile_comp_iter v m = compile_comp_iter v' m"
proof (induction v n and v m rule: compile_comprehension_compile_comp_iter.induct)
  case (1 visit node)
  have sm: "\<And>c0 i c. item (if type_of c0 = Token ASYNC then tl (children node) else children node) i = Inr c
           \<Longrightarrow> size c < size node"
    by (auto dest!: item_mem smaller split: if_splits)
  show ?case
    apply (subst compile_comprehension.simps)
    apply (subst compile_comprehension.simps)
    unfolding Let_def
    apply (intro eqI)
    subgoal by (rule "1.IH"; (assumption | rule refl)?) (auto intro!: "1.prems" dest!: sm)
    subgoal by (auto intro!: "1.prems" dest!: sm)
    subgoal by (auto intro!: "1.prems" dest!: sm)
    done
next
  case (2 visit node)
  show ?case
    apply (subst compile_comp_iter.simps)
    apply (subst compile_comp_iter.simps)
    apply (intro eqI)
    subgoal by (auto intro!: "2.prems" dest!: item_children_size)
    subgoal by (rule "2.IH"(1); (assumption | rule refl)?)
        (auto intro!: "2.prems" dest!: item_children_size)
    subgoal by (rule "2.IH"(2); (assumption | rule refl)?) (auto intro!: "2.prems")
    done
qed


lemmas compile_comprehension_eqI = compile_comprehension_eqI_aux(1)
lemmas compile_comp_iter_eqI = compile_comprehension_eqI_aux(2)

lemma compile_named_expr_eqI:
  assumes "\<And>c. Some c \<in> set cs \<Longrightarrow> v c = v' c"
  shows "compile_named_expr v cs = compile_named_expr v' cs"
  unfolding compile_named_expr_def
  by (intro eqI) (auto intro!: assms dest!: item_mem)

lemma visit_testlist_gexp_eqI:
  assumes "\<And>c. size c < size n \<Longrightarrow> v c = v' c"
  shows "visit_testlist_gexp v n p = visit_testlist_gexp v' n p"
  unfolding visit_testlist_gexp_def Let_def
  by (intro eqI) (auto intro!: assms compile_comprehension_eqI dest!: smaller)

lemma consume_mem:
  "consume t c = Inr (r, c') \<Longrightarrow>
     cons_children c' = cons_children c \<and> (\<forall>n. r = Some n \<longrightarrow> n \<in> set (cons_children c))"
  by (auto simp: consume_def item_def split: if_splits)

lemma bound_trans:
  "size (c::nl) < size y \<Longrightarrow> y \<in> set xs \<Longrightarrow> \<forall>m\<in>set xs. size m < k \<Longrightarrow> size c < k"
  by force

lemma case_step_eqI:
  "(\<And>s. x = Continue s \<Longrightarrow> f s = g s) \<Longrightarrow> (\<And>r. x = Return r \<Longrightarrow> h r = h' r)
     \<Longrightarrow> case_step f h x = case_step g h' x"
  by (cases x) simp_all

lemma comp_for_clause_eqI:
  assumes "\<And>c. size c < k \<Longrightarrow> v c = v' c"
    and "\<forall>m\<in>set (cons_children (st_consumer st)). size m < k"
  shows "comp_for_clause v n st = comp_for_clause v' n st"
  unfolding comp_for_clause_def
  using assms(2)
  by (intro eqI)
    (auto intro!: assms(1) compile_comprehension_eqI dest!: consume_mem intro: bound_trans)

lemma visit_atom_body_eqI:
  assumes "\<And>c. size c < k \<Longrightarrow> v c = v' c"
    and "\<forall>m\<in>set (cons_children (st_consumer st)). size m < k"
  shows "visit_atom_body v n st = visit_atom_body v' n st"
  unfolding visit_atom_body_def
  using assms(2)
  by (intro eqI)
    (auto intro!: assms(1) compile_named_expr_eqI comp_for_clause_eqI [where k = k]
      dest!: consume_mem)

lemma visit_atom_loop_eqI:
  fixes v v' :: "nl \<Rightarrow> 'v ast M"
  shows "(\<And>c. size c < k \<Longrightarrow> v c = v' c) \<Longrightarrow>
         \<forall>m\<in>set (cons_children (st_consumer st)). size m < k \<Longrightarrow>
         visit_atom_loop v n st = visit_atom_loop v' n st"
proof (induction v n st rule: visit_atom_loop.induct)
  case (1 visit node st)
  have body: "visit_atom_body visit node st = visit_atom_body v' node st"
    using "1.prems" by (intro visit_atom_body_eqI [where k = k]) auto
  show ?case
    apply (subst visit_atom_loop.simps)
    apply (subst visit_atom_loop.simps)
    apply (intro eqI body case_step_eqI)
    subgoal for x s s' st'
      using "1.prems" visit_atom_body_advances [of st visit node s st' s']
      by (intro "1.IH") auto
    done
qed

lemma visit_atom_eqI:
  assumes "\<And>c. size c < size n \<Longrightarrow> v c = v' c"
  shows "visit_atom v n = visit_atom v' n"
  unfolding visit_atom_def Let_def
  by (intro eqI)
    (auto intro!: assms compile_comprehension_eqI visit_testlist_gexp_eqI
        visit_atom_loop_eqI [where k = "size n"] dest!: smaller)

lemma visit_comparison_eqI:
  assumes "\<And>c. size c < size n \<Longrightarrow> v c = v' c"
  shows "visit_comparison v n = visit_comparison v' n"
  unfolding visit_comparison_def visit_comparison_step_def
  by (intro eqI) (auto intro!: assms dest!: smaller)

lemma visit_star_expr_eqI:
  assumes "\<And>c. size c < size n \<Longrightarrow> v c = v' c"
  shows "visit_star_expr v n = visit_star_expr v' n"
  unfolding visit_star_expr_def
  by (intro eqI) (auto intro!: assms dest!: smaller)

lemma visit_not_test_eqI:
  assumes "\<And>c. size c < size n \<Longrightarrow> v c = v' c"
  shows "visit_not_test v n = visit_not_test v' n"
  unfolding visit_not_test_def
  by (intro eqI) (auto intro!: assms dest!: smaller)

lemma visit_and_test_eqI:
  assumes "\<And>c. size c < size n \<Longrightarrow> v c = v' c"
  shows "visit_and_test v n = visit_and_test v' n"
  unfolding visit_and_test_def visit_operand_def
  by (intro eqI) (auto intro!: assms dest!: smaller)

lemma visit_or_test_eqI:
  assumes "\<And>c. size c < size n \<Longrightarrow> v c = v' c"
  shows "visit_or_test v n = visit_or_test v' n"
  unfolding visit_or_test_def visit_operand_def
  by (intro eqI) (auto intro!: assms dest!: smaller)

lemma visit_test_eqI:
  assumes "\<And>c. size c < size n \<Longrightarrow> v c = v' c"
  shows "visit_test v n = visit_test v' n"
  unfolding visit_test_def
  by (intro eqI) (auto intro!: assms dest!: smaller)

lemma visit_factor_eqI:
  assumes "\<And>c. size c < size n \<Longrightarrow> v c = v' c"
  shows "visit_factor v n = visit_factor v' n"
  unfolding visit_factor_def
  by (intro eqI) (auto intro!: assms dest!: smaller)

lemma compile_arglist_step_eqI:
  assumes "\<And>c. size c \<le> size a \<or> size c < size n \<Longrightarrow> v c = v' c"
  shows "compile_arglist_step v n p a acc = compile_arglist_step v' n p a acc"
  unfolding compile_arglist_step_def
  by (intro eqI)
    (auto intro!: assms compile_comprehension_eqI compile_named_expr_eqI dest!: smaller)

lemma compile_arglist_eqI:
  assumes "\<And>c. size c \<le> size n \<Longrightarrow> v c = v' c"
  shows "compile_arglist v n p = compile_arglist v' n p"
  unfolding compile_arglist_def Let_def
  by (intro eqI compile_arglist_step_eqI)
    (auto intro!: assms dest!: smaller split: if_splits)

lemma visit_trailer_eqI:
  assumes "\<And>c. size c < size t \<Longrightarrow> v c = v' c"
  shows "visit_trailer v b t a = visit_trailer v' b t a"
  unfolding visit_trailer_def
  by (intro eqI) (auto intro!: assms compile_arglist_eqI dest!: smaller)

lemma visit_power_without_await_eqI:
  assumes "\<And>c. \<exists>m\<in>set cs. size c \<le> size m \<Longrightarrow> v c = v' c"
  shows "visit_power_without_await v cs = visit_power_without_await v' cs"
proof -
  have a: "\<And>x. item cs 0 = Inr x \<Longrightarrow> v x = v' x"
    by (rule assms) (auto dest: item_mem)
  have b: "\<And>t c. t \<in> set (tl cs) \<Longrightarrow> size c < size t \<Longrightarrow> v c = v' c"
    by (rule assms) (auto dest!: in_set_tl intro!: bexI less_imp_le)
  show ?thesis
    unfolding visit_power_without_await_def
    by (intro eqI visit_trailer_eqI) (auto intro: a b)
qed

lemma visit_power_without_power_eqI:
  assumes "\<And>c. \<exists>m\<in>set cs. size c \<le> size m \<Longrightarrow> v c = v' c"
  shows "visit_power_without_power v cs = visit_power_without_power v' cs"
  unfolding visit_power_without_power_def
  by (intro eqI visit_power_without_await_eqI)
    (force intro!: assms dest: item_mem in_set_tl)+

lemma visit_power_eqI:
  assumes "\<And>c. size c < size n \<Longrightarrow> v c = v' c"
  shows "visit_power v n = visit_power v' n"
  unfolding visit_power_def Let_def
  by (intro eqI visit_power_without_power_eqI)
    (auto intro!: assms dest!: smaller in_set_butlastD)

lemma visit_subscript_eqI:
  assumes "\<And>c. size c < size n \<Longrightarrow> v c = v' c"
  shows "visit_subscript v n = visit_subscript v' n"
  unfolding visit_subscript_def
  by (intro eqI compile_named_expr_eqI)
    (auto intro!: assms dest!: consume_mem bindE_Inr bindM_Inr return_Inr smaller
      split: if_splits)

lemma visit_subscriptlist_eqI:
  assumes "\<And>c. size c < size n \<Longrightarrow> v c = v' c"
  shows "visit_subscriptlist v n = visit_subscriptlist v' n"
  unfolding visit_subscriptlist_def
  by (intro eqI) (auto intro!: assms dest!: smaller)

lemma dispatch_cong [fundef_cong]:
  assumes "env = env'" "n = n'" "\<And>c. size c < size n' \<Longrightarrow> v c = v' c"
  shows "dispatch env v n = dispatch env' v' n'"
  unfolding dispatch_def assms(1,2)
  by (auto split: nl.splits tok.splits sym.splits
      intro!: assms(3) typevar_eqI paramspec_eqI typevartuple_eqI typeparam_eqI file_input_eqI
        visit_simple_stmt_eqI visit_testlist_gexp_eqI visit_atom_eqI visit_expr_eqI
        visit_comparison_eqI visit_star_expr_eqI visit_not_test_eqI visit_and_test_eqI
        visit_or_test_eqI visit_test_eqI visit_factor_eqI visit_power_eqI visit_subscript_eqI
        visit_subscriptlist_eqI)

section \<open>The visitor\<close>

text \<open>
  \<open>Visitor.visit\<close>. Every method calls \<open>self.visit\<close> on nodes strictly smaller than its
  own node only (\<open>dispatch_cong\<close>), so the recursion is well founded.
\<close>

function visit :: "'v env \<Rightarrow> nl \<Rightarrow> 'v ast M" where
  "visit env node = dispatch env (visit env) node"
  by pat_completeness auto
termination
  by (relation "measure (\<lambda>(env, node). size node)") auto

declare visit.simps [simp del]

section \<open>The expression context after a method\<close>

text \<open>
  \<open>preserves m\<close>: whatever the context before \<open>m\<close>, and whether \<open>m\<close> returns or raises,
  the context after \<open>m\<close> is the one before it.
\<close>

definition preserves :: "'a M \<Rightarrow> bool" where
  "preserves m = (\<forall>s. snd (m s) = s)"

lemma preservesD: "preserves m \<Longrightarrow> m s = (r, s') \<Longrightarrow> s' = s"
  by (auto simp: preserves_def dest: spec [of _ s])

lemma preserves_return: "preserves (return x)"
  by (simp add: preserves_def return_def)

lemma preserves_raise: "preserves (raise e)"
  by (simp add: preserves_def raise_def)

lemma preserves_get_expr_context: "preserves get_expr_context"
  by (simp add: preserves_def get_expr_context_def)

lemma preserves_assert: "preserves (assert b)"
  by (simp add: assert_def preserves_return preserves_raise)

lemma preserves_set_expr_context: "preserves (set_expr_context c body)"
  by (simp add: preserves_def set_expr_context_def split: prod.splits)

lemma preserves_bindM:
  "preserves m \<Longrightarrow> (\<And>x s s'. m s = (Inr x, s') \<Longrightarrow> preserves (f x))
     \<Longrightarrow> preserves (bindM m f)"
  unfolding preserves_def bindM_def
  by (auto split: prod.splits sum.splits) (metis snd_conv)+

lemma preserves_bindE:
  "(\<And>x. r = Inr x \<Longrightarrow> preserves (f x)) \<Longrightarrow> preserves (bindE r f)"
  by (cases r) (auto simp: bindE_def preserves_raise)

lemma preserves_if:
  "(c \<Longrightarrow> preserves a) \<Longrightarrow> (\<not> c \<Longrightarrow> preserves b) \<Longrightarrow> preserves (if c then a else b)"
  by simp

lemma preserves_case_prod:
  "(\<And>a b. p = (a, b) \<Longrightarrow> preserves (f a b)) \<Longrightarrow> preserves (case_prod f p)"
  by (cases p) simp

lemma preserves_case_option:
  "(x = None \<Longrightarrow> preserves a) \<Longrightarrow> (\<And>y. x = Some y \<Longrightarrow> preserves (f y))
     \<Longrightarrow> preserves (case_option a f x)"
  by (cases x) simp_all

lemma preserves_case_step:
  "(\<And>s. x = Continue s \<Longrightarrow> preserves (f s)) \<Longrightarrow> (\<And>r. x = Return r \<Longrightarrow> preserves (h r))
     \<Longrightarrow> preserves (case_step f h x)"
  by (cases x) simp_all

lemma preserves_for_each:
  "(\<And>x acc. x \<in> set xs \<Longrightarrow> preserves (f x acc)) \<Longrightarrow> preserves (for_each xs a f)"
  by (induction xs arbitrary: a) (auto intro!: preserves_bindM preserves_return)

lemma preserves_map_M:
  "(\<And>x. x \<in> set xs \<Longrightarrow> preserves (f x)) \<Longrightarrow> preserves (map_M f xs)"
  by (induction xs) (auto intro!: preserves_bindM preserves_return)

lemma preserves_visit_opt:
  "(\<And>n. e = Some n \<Longrightarrow> preserves (v n)) \<Longrightarrow> preserves (visit_opt v e)"
  by (cases e) (auto simp: visit_opt_def preserves_raise)

lemmas presI = preserves_return preserves_raise preserves_get_expr_context preserves_assert
  preserves_set_expr_context preserves_bindM preserves_bindE preserves_if preserves_case_prod
  preserves_case_option preserves_case_step preserves_for_each preserves_map_M
  preserves_visit_opt

lemma preserves_generic_visit: "preserves (generic_visit n)"
  unfolding generic_visit_def by (intro presI)

lemma preserves_leaves:
  "preserves (visit_NAME n)" "preserves (visit_NUMBER env n)"
  "preserves (visit_STRING env n)" "preserves (visit_COLON n)"
  unfolding visit_NAME_def visit_NUMBER_def visit_STRING_def visit_COLON_def
  by (intro presI)+

lemma preserves_typevar:
  assumes "\<And>c. size c < size n \<Longrightarrow> preserves (v c)"
  shows "preserves (visit_typevar env v n)"
  unfolding visit_typevar_def typevar_step_def
  by (intro presI) (auto intro!: assms dest!: smaller)

lemma preserves_paramspec:
  assumes "\<And>c. size c < size n \<Longrightarrow> preserves (v c)"
  shows "preserves (visit_paramspec env v n)"
  unfolding visit_paramspec_def
  by (intro presI) (auto intro!: assms dest!: smaller)

lemma preserves_typevartuple:
  assumes "\<And>c. size c < size n \<Longrightarrow> preserves (v c)"
  shows "preserves (visit_typevartuple env v n)"
  unfolding visit_typevartuple_def
  by (intro presI) (auto intro!: assms dest!: smaller)

lemma preserves_typeparam:
  assumes "\<And>c. size c < size n \<Longrightarrow> preserves (v c)"
  shows "preserves (visit_typeparam v n)"
  unfolding visit_typeparam_def
  by (intro presI) (auto intro!: assms dest!: smaller)

lemma preserves_file_input:
  assumes "\<And>c. size c < size n \<Longrightarrow> preserves (v c)"
  shows "preserves (visit_file_input v n)"
  unfolding visit_file_input_def
  by (intro presI) (auto intro!: assms dest!: smaller)

lemma preserves_simple_stmt:
  assumes "\<And>c. size c < size n \<Longrightarrow> preserves (v c)"
  shows "preserves (visit_simple_stmt v n)"
  unfolding visit_simple_stmt_def
  by (intro presI) (auto intro!: assms dest!: smaller)

lemma preserves_compile_comprehension_aux:
  fixes v :: "nl \<Rightarrow> 'v ast M"
  shows "(\<And>c. size c < size n \<Longrightarrow> preserves (v c)) \<Longrightarrow> preserves (compile_comprehension v n)"
    and "(\<And>c. size c < size m \<Longrightarrow> preserves (v c)) \<Longrightarrow> preserves (compile_comp_iter v m)"
proof (induction v n and v m rule: compile_comprehension_compile_comp_iter.induct)
  case (1 visit node)
  have sm: "\<And>c0 i c. item (if type_of c0 = Token ASYNC then tl (children node) else children node) i = Inr c
           \<Longrightarrow> size c < size node"
    by (auto dest!: item_mem smaller split: if_splits)
  show ?case
    apply (subst compile_comprehension.simps)
    unfolding Let_def
    apply (intro presI)
    subgoal by (rule "1.IH"; (assumption | rule refl)?) (auto intro!: "1.prems" dest!: sm)
    subgoal by (auto intro!: "1.prems" dest!: sm)
    done
next
  case (2 visit node)
  show ?case
    apply (subst compile_comp_iter.simps)
    apply (intro presI)
    subgoal by (auto intro!: "2.prems" dest!: item_children_size)
    subgoal by (rule "2.IH"(1); (assumption | rule refl)?)
        (auto intro!: "2.prems" dest!: item_children_size)
    subgoal by (rule "2.IH"(2); (assumption | rule refl)?) (auto intro!: "2.prems")
    done
qed


lemmas preserves_compile_comprehension = preserves_compile_comprehension_aux(1)

lemma preserves_compile_named_expr:
  assumes "\<And>c. Some c \<in> set cs \<Longrightarrow> preserves (v c)"
  shows "preserves (compile_named_expr v cs)"
  unfolding compile_named_expr_def
  by (intro presI) (auto intro!: assms dest!: item_mem)

lemma preserves_testlist_gexp:
  assumes "\<And>c. size c < size n \<Longrightarrow> preserves (v c)"
  shows "preserves (visit_testlist_gexp v n p)"
  unfolding visit_testlist_gexp_def Let_def
  by (intro presI) (auto intro!: assms preserves_compile_comprehension dest!: smaller)

lemma preserves_expect_comma: "preserves (expect_comma st)"
  unfolding expect_comma_def by (intro presI)

lemma preserves_comp_for_clause:
  assumes "\<And>c. size c < k \<Longrightarrow> preserves (v c)"
    and "\<forall>m\<in>set (cons_children (st_consumer st)). size m < k"
  shows "preserves (comp_for_clause v n st)"
  unfolding comp_for_clause_def
  using assms(2)
  by (intro presI preserves_expect_comma)
    (auto intro!: assms(1) preserves_compile_comprehension dest!: consume_mem intro: bound_trans)

lemma preserves_visit_atom_body:
  assumes "\<And>c. size c < k \<Longrightarrow> preserves (v c)"
    and "\<forall>m\<in>set (cons_children (st_consumer st)). size m < k"
  shows "preserves (visit_atom_body v n st)"
  unfolding visit_atom_body_def
  using assms(2)
  by (intro presI preserves_expect_comma)
    (auto intro!: assms(1) preserves_compile_named_expr preserves_comp_for_clause [where k = k]
      dest!: consume_mem)

lemma preserves_visit_atom_loop:
  fixes v :: "nl \<Rightarrow> 'v ast M"
  shows "(\<And>c. size c < k \<Longrightarrow> preserves (v c)) \<Longrightarrow>
         \<forall>m\<in>set (cons_children (st_consumer st)). size m < k \<Longrightarrow>
         preserves (visit_atom_loop v n st)"
proof (induction v n st rule: visit_atom_loop.induct)
  case (1 visit node st)
  have body: "preserves (visit_atom_body visit node st)"
    using "1.prems" by (intro preserves_visit_atom_body [where k = k]) auto
  show ?case
    apply (subst visit_atom_loop.simps)
    apply (intro presI body)
    subgoal for x s s' st'
      using "1.prems" visit_atom_body_advances [of st visit node s st' s']
      by (intro "1.IH") auto
    done
qed

lemma preserves_visit_atom:
  assumes "\<And>c. size c < size n \<Longrightarrow> preserves (v c)"
  shows "preserves (visit_atom v n)"
  unfolding visit_atom_def Let_def
  by (intro presI)
    (auto intro!: assms preserves_compile_comprehension preserves_testlist_gexp
        preserves_visit_atom_loop [where k = "size n"] dest!: smaller)

lemma preserves_visit_expr:
  assumes "\<And>c. size c < size n \<Longrightarrow> preserves (v c)"
  shows "preserves (visit_expr v n)"
  unfolding visit_expr_def visit_expr_step_def
  by (intro presI) (auto intro!: assms dest!: smaller)

lemma preserves_compare_operator: "preserves (compare_operator n)"
  unfolding compare_operator_def by (intro presI)

lemma preserves_visit_comparison:
  assumes "\<And>c. size c < size n \<Longrightarrow> preserves (v c)"
  shows "preserves (visit_comparison v n)"
  unfolding visit_comparison_def visit_comparison_step_def
  by (intro presI preserves_compare_operator) (auto intro!: assms dest!: smaller)

lemma preserves_visit_star_expr:
  assumes "\<And>c. size c < size n \<Longrightarrow> preserves (v c)"
  shows "preserves (visit_star_expr v n)"
  unfolding visit_star_expr_def
  by (intro presI) (auto intro!: assms dest!: smaller)

lemma preserves_visit_not_test:
  assumes "\<And>c. size c < size n \<Longrightarrow> preserves (v c)"
  shows "preserves (visit_not_test v n)"
  unfolding visit_not_test_def
  by (intro presI) (auto intro!: assms dest!: smaller)

lemma preserves_visit_and_test:
  assumes "\<And>c. size c < size n \<Longrightarrow> preserves (v c)"
  shows "preserves (visit_and_test v n)"
  unfolding visit_and_test_def visit_operand_def
  by (intro presI) (auto intro!: assms dest!: smaller)

lemma preserves_visit_or_test:
  assumes "\<And>c. size c < size n \<Longrightarrow> preserves (v c)"
  shows "preserves (visit_or_test v n)"
  unfolding visit_or_test_def visit_operand_def
  by (intro presI) (auto intro!: assms dest!: smaller)

lemma preserves_visit_test:
  assumes "\<And>c. size c < size n \<Longrightarrow> preserves (v c)"
  shows "preserves (visit_test v n)"
  unfolding visit_test_def
  by (intro presI) (auto intro!: assms dest!: smaller)

lemma preserves_visit_factor:
  assumes "\<And>c. size c < size n \<Longrightarrow> preserves (v c)"
  shows "preserves (visit_factor v n)"
  unfolding visit_factor_def
  by (intro presI) (auto intro!: assms dest!: smaller)

lemma preserves_compile_arglist_step:
  assumes "\<And>c. size c \<le> size a \<or> size c < size n \<Longrightarrow> preserves (v c)"
  shows "preserves (compile_arglist_step v n p a acc)"
  unfolding compile_arglist_step_def
  by (intro presI)
    (auto intro!: assms preserves_compile_comprehension preserves_compile_named_expr
      dest!: smaller)

lemma preserves_compile_arglist:
  assumes "\<And>c. size c \<le> size n \<Longrightarrow> preserves (v c)"
  shows "preserves (compile_arglist v n p)"
  unfolding compile_arglist_def Let_def
  by (intro presI preserves_compile_arglist_step)
    (auto intro!: assms dest!: smaller split: if_splits)

lemma preserves_visit_trailer:
  assumes "\<And>c. size c < size t \<Longrightarrow> preserves (v c)"
  shows "preserves (visit_trailer v b t a)"
  unfolding visit_trailer_def
  by (intro presI) (auto intro!: assms preserves_compile_arglist dest!: smaller)

lemma preserves_visit_power_without_await:
  assumes "\<And>c. \<exists>m\<in>set cs. size c \<le> size m \<Longrightarrow> preserves (v c)"
  shows "preserves (visit_power_without_await v cs)"
proof -
  have a: "\<And>x. item cs 0 = Inr x \<Longrightarrow> preserves (v x)"
    by (rule assms) (auto dest: item_mem)
  have b: "\<And>t c. t \<in> set (tl cs) \<Longrightarrow> size c < size t \<Longrightarrow> preserves (v c)"
    by (rule assms) (auto dest!: in_set_tl intro!: bexI less_imp_le)
  show ?thesis
    unfolding visit_power_without_await_def
    by (intro presI preserves_visit_trailer) (auto intro: a b)
qed

lemma preserves_visit_power_without_power:
  assumes "\<And>c. \<exists>m\<in>set cs. size c \<le> size m \<Longrightarrow> preserves (v c)"
  shows "preserves (visit_power_without_power v cs)"
  unfolding visit_power_without_power_def
  by (intro presI preserves_visit_power_without_await)
    (force intro!: assms dest: item_mem in_set_tl)+

lemma preserves_visit_power:
  assumes "\<And>c. size c < size n \<Longrightarrow> preserves (v c)"
  shows "preserves (visit_power v n)"
  unfolding visit_power_def Let_def
  by (intro presI preserves_visit_power_without_power)
    (auto intro!: assms dest!: smaller in_set_butlastD)

lemma preserves_visit_subscript:
  assumes "\<And>c. size c < size n \<Longrightarrow> preserves (v c)"
  shows "preserves (visit_subscript v n)"
  unfolding visit_subscript_def
  by (intro presI preserves_compile_named_expr)
    (auto intro!: assms dest!: consume_mem bindE_Inr bindM_Inr return_Inr smaller
      split: if_splits)

lemma preserves_visit_subscriptlist:
  assumes "\<And>c. size c < size n \<Longrightarrow> preserves (v c)"
  shows "preserves (visit_subscriptlist v n)"
  unfolding visit_subscriptlist_def
  by (intro presI) (auto intro!: assms dest!: smaller)

lemma preserves_dispatch:
  assumes "\<And>c. size c < size n \<Longrightarrow> preserves (v c)"
  shows "preserves (dispatch env v n)"
  unfolding dispatch_def
  by (auto split: nl.splits tok.splits sym.splits
      intro!: assms preserves_generic_visit preserves_leaves preserves_typevar
        preserves_paramspec preserves_typevartuple preserves_typeparam preserves_file_input
        preserves_simple_stmt preserves_testlist_gexp preserves_visit_atom preserves_visit_expr
        preserves_visit_comparison preserves_visit_star_expr preserves_visit_not_test
        preserves_visit_and_test preserves_visit_or_test preserves_visit_test
        preserves_visit_factor preserves_visit_power preserves_visit_subscript
        preserves_visit_subscriptlist)

text \<open>
  Lowering any node, on any exit path, leaves \<open>self.expr_context\<close> as it found it.
\<close>

lemma preserves_visit: "preserves (visit env n)"
proof (induction env n rule: visit.induct)
  case (1 env node)
  show ?case
    by (subst visit.simps) (rule preserves_dispatch, rule "1.IH")
qed

lemma visit_context: "visit env n s = (r, s') \<Longrightarrow> s' = s"
  using preserves_visit by (rule preservesD)

section \<open>Properties\<close>

lemma rfind_none: "ch \<notin> set v \<Longrightarrow> rfind v ch = - 1"
  by (induction v) (auto simp: Let_def)

lemma rfind_last: "ch \<notin> set post \<Longrightarrow> rfind (pre @ ch # post) ch = int (length pre)"
  by (induction pre) (auto simp: Let_def rfind_none)

lemma count_list_0: "ch \<notin> set v \<Longrightarrow> count_list v ch = 0"
  by (induction v) auto

lemma count_list_pos: "ch \<in> set v \<Longrightarrow> 0 < count_list v ch"
  by (induction v) auto

text \<open>
  C2. For a leaf, the range starts at the leaf's recorded line and column. When the text
  has no newline, the range ends on the same line, at the start column plus the length
  of the text. When the text is \<open>pre\<close>, a newline, and \<open>post\<close> with no newline in \<open>post\<close>
  (so that newline is the last one), the range ends at the start line plus the number of
  newlines in the text, at column \<open>length post\<close>: the number of characters after the last
  newline.
\<close>

theorem get_line_range_for_leaf_correct:
  "\<exists>r. get_line_range_for_leaf (Leaf t v l c) = Inr r
     \<and> lineno r = l \<and> col_offset r = c
     \<and> (newline \<notin> set v \<longrightarrow>
          end_lineno r = l \<and> end_col_offset r = c + int (length v))
     \<and> (\<forall>pre post. v = pre @ newline # post \<and> newline \<notin> set post \<longrightarrow>
          end_lineno r = l + int (count_list v newline)
          \<and> end_col_offset r = int (length post))"
proof -
  let ?r = "\<lparr>lineno = l, col_offset = c,
              end_lineno = l + int (count_list v newline),
              end_col_offset =
                (if int (count_list v newline) = 0 then c + int (length v)
                 else int (length v) - rfind v newline - 1)\<rparr>"
  have eq: "get_line_range_for_leaf (Leaf t v l c) = Inr ?r"
    by (simp add: Let_def)
  have a: "newline \<notin> set v \<longrightarrow>
             end_lineno ?r = l \<and> end_col_offset ?r = c + int (length v)"
    by (simp add: count_list_0)
  have b: "\<forall>pre post. v = pre @ newline # post \<and> newline \<notin> set post \<longrightarrow>
             end_lineno ?r = l + int (count_list v newline)
             \<and> end_col_offset ?r = int (length post)"
  proof (intro allI impI)
    fix pre post
    assume h: "v = pre @ newline # post \<and> newline \<notin> set post"
    then have "newline \<in> set v" by simp
    then have "0 < count_list v newline" by (rule count_list_pos)
    moreover from h have "rfind v newline = int (length pre)"
      by (simp add: rfind_last)
    ultimately show "end_lineno ?r = l + int (count_list v newline)
             \<and> end_col_offset ?r = int (length post)"
      using h by simp
  qed
  from eq a b show ?thesis by (intro exI [of _ ?r]) simp
qed

theorem get_line_range_for_leaf_witness:
  "get_line_range_for_leaf (Leaf STRING [CHR ''a'', CHR ''b'', newline, CHR ''c''] 3 4)
     = Inr \<lparr>lineno = 3, col_offset = 4, end_lineno = 4, end_col_offset = 1\<rparr>
   \<and> get_line_range_for_leaf (Leaf NAME ''abc'' 3 4)
     = Inr \<lparr>lineno = 3, col_offset = 4, end_lineno = 3, end_col_offset = 7\<rparr>"
proof -
  obtain r where r: "get_line_range_for_leaf
        (Leaf STRING [CHR ''a'', CHR ''b'', newline, CHR ''c''] 3 4) = Inr r"
      "lineno r = 3" "col_offset r = 4"
      "\<forall>pre post. [CHR ''a'', CHR ''b'', newline, CHR ''c''] = pre @ newline # post
          \<and> newline \<notin> set post \<longrightarrow>
          end_lineno r = 3 + int (count_list [CHR ''a'', CHR ''b'', newline, CHR ''c''] newline)
          \<and> end_col_offset r = int (length post)"
    using get_line_range_for_leaf_correct
      [of STRING "[CHR ''a'', CHR ''b'', newline, CHR ''c'']" 3 4] by blast
  from r(4) [rule_format, of "[CHR ''a'', CHR ''b'']" "[CHR ''c'']"]
  have "end_lineno r = 4 \<and> end_col_offset r = 1"
    by simp
  with r(1,2,3) have one: "get_line_range_for_leaf
        (Leaf STRING [CHR ''a'', CHR ''b'', newline, CHR ''c''] 3 4)
      = Inr \<lparr>lineno = 3, col_offset = 4, end_lineno = 4, end_col_offset = 1\<rparr>"
    by (cases r) simp
  obtain q where q: "get_line_range_for_leaf (Leaf NAME ''abc'' 3 4) = Inr q"
      "lineno q = 3" "col_offset q = 4"
      "newline \<notin> set ''abc'' \<longrightarrow> end_lineno q = 3 \<and> end_col_offset q = 4 + int (length ''abc'')"
    using get_line_range_for_leaf_correct [of NAME "''abc''" 3 4] by blast
  from q(4) have "end_lineno q = 3 \<and> end_col_offset q = 7"
    by simp
  with q(1,2,3) have two: "get_line_range_for_leaf (Leaf NAME ''abc'' 3 4)
      = Inr \<lparr>lineno = 3, col_offset = 4, end_lineno = 3, end_col_offset = 7\<rparr>"
    by (cases q) simp
  from one two show ?thesis by simp
qed

lemma consume_eq:
  "consume typ c =
     (if index c < length (cons_children c)
         \<and> (typ = None \<or> typ = Some (type_of (cons_children c ! index c)))
      then Inr (Some (cons_children c ! index c), c\<lparr>index := index c + 1\<rparr>)
      else Inr (None, c))"
  by (auto simp: consume_def item_def)

text \<open>
  C7. \<open>consume\<close> never raises: its result is always a value (\<open>Inr\<close>). It returns
  the current child and a consumer whose index is one more exactly when the index is
  within the children and either no type was given or the current child has the given
  type; in every other case it returns \<open>None\<close> and the consumer as it was.
\<close>

theorem consume_correct:
  "consume typ c =
     (if index c < length (cons_children c)
         \<and> (typ = None \<or> typ = Some (type_of (cons_children c ! index c)))
      then Inr (Some (cons_children c ! index c), c\<lparr>index := index c + 1\<rparr>)
      else Inr (None, c))"
  by (rule consume_eq)

text \<open>The environment of the examples: Python 3.12, and a literal evaluated to its own
  text.\<close>

definition env_3_12 :: "string env" where
  "env_3_12 = \<lparr>version_info = (3, 12), literal_eval = (\<lambda>s. Inr s)\<rparr>"

subsection \<open>Running the model\<close>

lemma bindE_simps [simp]:
  "bindE (Inr x) f = f x"
  "bindE (Inl e) f = raise e"
  by (simp_all add: bindE_def)

lemma bindM_simps [simp]:
  "bindM (return x) f = f x"
  "bindM (raise e) f = raise e"
  by (simp_all add: bindM_def return_def raise_def fun_eq_iff)

lemma bindM_Inr_eq: "m s = (Inr x, s') \<Longrightarrow> bindM m f s = f x s'"
  by (simp add: bindM_def)

lemma bindM_Inl_eq: "m s = (Inl e, s') \<Longrightarrow> bindM m f s = (Inl e, s')"
  by (simp add: bindM_def)

lemma item_Cons_simps [simp]:
  "item (x # xs) 0 = Inr x"
  "item (x # y # xs) 1 = Inr y"
  "item (x # y # z # xs) 2 = Inr z"
  "item (x # y # z # w # xs) 3 = Inr w"
  by (simp_all add: item_def Let_def)

lemmas run_simps =
  visit.simps dispatch_def generic_visit_def visit_NAME_def visit_NUMBER_def visit_STRING_def
  visit_COLON_def get_expr_context_def return_def raise_def bindM_def bindE_def assert_def
  set_expr_context_def visit_opt_def get_line_range_opt_def item_def lookup_def
  unify_line_ranges_def Let_def

lemma simple_stmt_example:
  "visit env_3_12 (Node simple_stmt [Leaf NAME ''a'' 1 0, Leaf NEWLINE [newline] 1 1]) Load
     = (Inr (Expr (Name ''a'' Load
                    \<lparr>lineno = 1, col_offset = 0, end_lineno = 1, end_col_offset = 1\<rparr>)
                  \<lparr>lineno = 1, col_offset = 0, end_lineno = 1, end_col_offset = 1\<rparr>), Load)"
  by (simp add: run_simps visit_simple_stmt_def)


text \<open>
  C1. A type parameter with a default, lowered for Python 3.12. The node is that of the
  parameter \<open>**P = int\<close>: \<open>visit_paramspec\<close> returns a \<open>ParamSpec\<close> without the default
  and raises nothing. (The name it reads from the first child is the text \<open>**\<close>.)
\<close>

theorem paramspec_default_dropped:
  "visit env_3_12
     (Node paramspec [Leaf DOUBLESTAR ''**'' 1 0, Leaf NAME ''P'' 1 2,
                      Leaf EQUAL ''='' 1 4, Leaf NAME ''int'' 1 6]) Load
     = (Inr (ParamSpec ''**'' None
               \<lparr>lineno = 1, col_offset = 0, end_lineno = 1, end_col_offset = 9\<rparr>), Load)"
  by (simp add: run_simps visit_paramspec_def env_3_12_def version_ge_def)

text \<open>The same for \<open>*Ts = int\<close>, while \<open>visit_typevar\<close> raises on \<open>T = int\<close>.\<close>

lemma typevartuple_default_dropped:
  "visit env_3_12
     (Node typevartuple [Leaf STAR ''*'' 1 0, Leaf NAME ''Ts'' 1 1,
                         Leaf EQUAL ''='' 1 4, Leaf NAME ''int'' 1 6]) Load
     = (Inr (TypeVarTuple ''*'' None
               \<lparr>lineno = 1, col_offset = 0, end_lineno = 1, end_col_offset = 9\<rparr>), Load)"
  by (simp add: run_simps visit_typevartuple_def env_3_12_def version_ge_def)

lemma typevar_default_raises_example:
  "visit env_3_12
     (Node typevar [Leaf NAME ''T'' 1 0, Leaf EQUAL ''='' 1 2, Leaf NAME ''int'' 1 4]) Load
     = (Inl (UnsupportedSyntaxError ''TypeVar default''), Load)"
  by (simp add: run_simps visit_typevar_def typevar_step_def env_3_12_def version_ge_def
      version_lt_def)

text \<open>
  For every \<open>typevar\<close> node, under a version from 3.12 and below 3.13: when the loop over
  the punctuation has lowered a default, \<open>visit_typevar\<close> raises.
\<close>

lemma visit_typevar_default_raises:
  assumes "version_ge (version_info env) (3, 12)" "\<not> version_ge (version_info env) (3, 13)"
    and "for_each [1, 3] (None, None) (typevar_step v node) s = (Inr (bound, Some d), s')"
  shows "visit_typevar env v node s = (Inl (UnsupportedSyntaxError ''TypeVar default''), s')"
proof -
  have lt: "version_lt (version_info env) (3, 13)"
    using assms(2) by (auto simp: version_ge_def version_lt_def)
  show ?thesis
    unfolding visit_typevar_def
    using assms lt
    by (simp add: bindM_def raise_def del: for_each.simps)
qed

text \<open>
  C5. \<open>with self.set_expr_context(c): body\<close> runs the body under \<open>c\<close> and leaves the
  compiler with the context it had before, whether the body returns or raises, and
  whatever context the body itself leaves behind. As every override in the compiler is
  made this way, lowering any node leaves the context as it was, on every exit path.
\<close>

theorem set_expr_context_restores:
  "snd (set_expr_context c body s) = s
   \<and> fst (set_expr_context c body s) = fst (body c)
   \<and> snd (visit env node s) = s"
  using preserves_visit [of env node]
  by (simp add: set_expr_context_def preserves_def split: prod.splits)

text \<open>
  C10. \<open>visit_simple_stmt\<close> lowers the first child. An expression becomes an \<open>Expr\<close>
  whose range is that of the first child; anything else is returned as it is.
\<close>

theorem visit_simple_stmt_correct:
  assumes "visit env c0 s = (Inr val, s')"
  shows "(is_expr val \<longrightarrow> get_line_range c0 = Inr r \<longrightarrow>
            visit env (Node simple_stmt (c0 # rest)) s = (Inr (Expr val r), s'))
       \<and> (\<not> is_expr val \<longrightarrow>
            visit env (Node simple_stmt (c0 # rest)) s = (Inr val, s'))"
  by (subst (1 2) visit.simps)
    (simp add: dispatch_def visit_simple_stmt_def bindM_def assms return_def)

theorem visit_simple_stmt_witness:
  "visit env_3_12 (Node simple_stmt [Leaf NAME ''a'' 1 0, Leaf NEWLINE [newline] 1 1]) Load
     = (Inr (Expr (Name ''a'' Load
                    \<lparr>lineno = 1, col_offset = 0, end_lineno = 1, end_col_offset = 1\<rparr>)
                  \<lparr>lineno = 1, col_offset = 0, end_lineno = 1, end_col_offset = 1\<rparr>), Load)
   \<and> get_line_range (Node simple_stmt [Leaf NAME ''a'' 1 0, Leaf NEWLINE [newline] 1 1])
     = Inr \<lparr>lineno = 1, col_offset = 0, end_lineno = 2, end_col_offset = 0\<rparr>
   \<and> visit env_3_12
       (Node simple_stmt
          [Node typevar [Leaf NAME ''T'' 1 0], Leaf NEWLINE [newline] 1 1]) Load
     = (Inr (TypeVar ''T'' None None
              \<lparr>lineno = 1, col_offset = 0, end_lineno = 1, end_col_offset = 1\<rparr>), Load)"
proof -
  have a: "visit env_3_12 (Leaf NAME ''a'' 1 0) Load
      = (Inr (Name ''a'' Load
            \<lparr>lineno = 1, col_offset = 0, end_lineno = 1, end_col_offset = 1\<rparr>), Load)"
    by (simp add: run_simps)
  have b: "visit env_3_12 (Node typevar [Leaf NAME ''T'' 1 0]) Load
      = (Inr (TypeVar ''T'' None None
            \<lparr>lineno = 1, col_offset = 0, end_lineno = 1, end_col_offset = 1\<rparr>), Load)"
    by (simp add: run_simps visit_typevar_def typevar_step_def env_3_12_def version_ge_def
        version_lt_def)
  show ?thesis
    using visit_simple_stmt_correct [OF a, of _ "[Leaf NEWLINE [newline] 1 1]"]
      visit_simple_stmt_correct [OF b, of _ "[Leaf NEWLINE [newline] 1 1]"]
    by (simp add: item_def unify_line_ranges_def)
qed

subsection \<open>Operator chains\<close>

text \<open>The children \<open>a op1 b op2 c ...\<close> of a chain: a first operand and pairs of an
  operator and an operand.\<close>

definition chain :: "nl \<Rightarrow> (nl \<times> nl) list \<Rightarrow> nl list" where
  "chain a ps = a # concat (map (\<lambda>(operator, operand). [operator, operand]) ps)"

text \<open>
  The structure the specification asks for: \<open>((a op1 b) op2 c) ...\<close>, every \<open>BinOp\<close>
  ranging from the start of the first operand (\<open>b\<close>) to the end of its own right operand.
\<close>

fun left_nested ::
  "'v ast \<Rightarrow> line_range \<Rightarrow> (operator \<times> 'v ast \<times> line_range) list \<Rightarrow> 'v ast" where
  "left_nested left b [] = left"
| "left_nested left b ((bop, right, r) # rest) =
     left_nested
       (BinOp left bop right
          \<lparr>lineno = lineno b, col_offset = col_offset b,
           end_lineno = end_lineno r, end_col_offset = end_col_offset r\<rparr>) b rest"

lemma range_2_step_2_odd: "range_2_step_2 (2 * n + 1) = map (\<lambda>k. 2 * k + 2) [0 ..< n]"
  by (induction n) (auto simp: range_2_step_2_def)

lemma length_chain: "length (chain a ps) = 2 * length ps + 1"
  by (induction ps) (auto simp: chain_def)

lemma item_nat: "i < length xs \<Longrightarrow> item xs (int i) = Inr (xs ! i)"
  by (simp add: item_def)

lemma visit_expr_loop:
  assumes "list_all2 (\<lambda>(operator, operand) (bop, right, r).
              TOKEN_TYPE_TO_BINOP (type_of operator) = Some bop
              \<and> v operand s = (Inr right, s) \<and> get_line_range operand = Inr r) ps rs"
    and "children node = pre @ concat (map (\<lambda>(operator, operand). [operator, operand]) ps)"
    and "length pre = 2 * j + 1"
  shows "for_each (map (\<lambda>k. 2 * k + 2) [j ..< j + length ps]) acc
           (visit_expr_step v node b) s = (Inr (left_nested acc b rs), s)"
  using assms
proof (induction ps arbitrary: rs pre j acc)
  case Nil
  then show ?case by (simp add: return_def)
next
  case (Cons p ps)
  obtain operator operand where p: "p = (operator, operand)" by (cases p)
  from Cons.prems(1) p obtain bop right r rs' where rs: "rs = (bop, right, r) # rs'"
    and h: "TOKEN_TYPE_TO_BINOP (type_of operator) = Some bop"
      "v operand s = (Inr right, s)" "get_line_range operand = Inr r"
    and rest: "list_all2 (\<lambda>(operator, operand) (bop, right, r).
              TOKEN_TYPE_TO_BINOP (type_of operator) = Some bop
              \<and> v operand s = (Inr right, s) \<and> get_line_range operand = Inr r) ps rs'"
    by (auto simp: list_all2_Cons1)
  have cs: "children node = (pre @ [operator, operand])
              @ concat (map (\<lambda>(operator, operand). [operator, operand]) ps)"
    using Cons.prems(2) p by simp
  have len: "2 * j + 2 < length (children node)"
    using Cons.prems(3) by (simp add: cs)
  have n1: "children node ! (2 * j + 2) = operand"
    using Cons.prems(3) by (simp add: cs nth_append)
  have i1: "item (children node) (int (2 * j + 2)) = Inr operand"
    using item_nat [OF len] n1 by simp
  have len': "2 * j + 1 < length (children node)" using len by simp
  have n2: "children node ! (2 * j + 1) = operator"
    using Cons.prems(3) by (simp add: cs nth_append)
  have "int (2 * j + 2) - 1 = int (2 * j + 1)" by simp
  then have i2: "item (children node) (int (2 * j + 2) - 1) = Inr operator"
    using item_nat [OF len'] n2 by simp
  have step: "visit_expr_step v node b (2 * j + 2) acc s
      = (Inr (BinOp acc bop right (unify_line_ranges b r)), s)"
    unfolding visit_expr_step_def
    using i1 i2 h by (simp add: lookup_def bindM_def return_def)
  have upt: "[j ..< j + length (p # ps)] = j # [Suc j ..< Suc j + length ps]"
    by (simp add: upt_conv_Cons del: upt_Suc)
  have IH: "for_each (map (\<lambda>k. 2 * k + 2) [Suc j ..< Suc j + length ps])
              (BinOp acc bop right (unify_line_ranges b r)) (visit_expr_step v node b) s
            = (Inr (left_nested (BinOp acc bop right (unify_line_ranges b r)) b rs'), s)"
    using Cons.prems(3) by (intro Cons.IH [OF rest cs]) simp
  show ?case
    unfolding upt
    using step IH by (simp add: bindM_def rs unify_line_ranges_def)
qed

text \<open>
  C3. A chain node \<open>a op1 b op2 c ...\<close> of any of the six kinds, whose operators are in
  the table and whose operands lower to \<open>left\<close> and to the \<open>right\<close>s, lowers to the
  left-nested structure. Every step's range starts where \<open>a\<close> starts and ends where
  the step's right operand ends.
\<close>

theorem visit_expr_left_nested:
  assumes "y \<in> {expr, xor_expr, and_expr, shift_expr, arith_expr, term_sym}"
    and "fst (visit env a s) = Inr left"
    and "get_line_range a = Inr b"
    and "list_all2 (\<lambda>(operator, operand) (bop, right, r).
              TOKEN_TYPE_TO_BINOP (type_of operator) = Some bop
              \<and> fst (visit env operand s) = Inr right \<and> get_line_range operand = Inr r) ps rs"
  shows "visit env (Node y (chain a ps)) s = (Inr (left_nested left b rs), s)"
proof -
  have ctx: "\<And>n x. fst (visit env n s) = Inr x \<Longrightarrow> visit env n s = (Inr x, s)"
    using visit_context by (metis prod.collapse)
  have a: "visit env a s = (Inr left, s)" by (rule ctx) (rule assms(2))
  have all: "list_all2 (\<lambda>(operator, operand) (bop, right, r).
              TOKEN_TYPE_TO_BINOP (type_of operator) = Some bop
              \<and> visit env operand s = (Inr right, s) \<and> get_line_range operand = Inr r) ps rs"
    using assms(4) by (rule list_all2_mono) (auto dest: ctx)
  have loop: "for_each (map (\<lambda>k. 2 * k + 2) [0 ..< 0 + length ps]) left
           (visit_expr_step (visit env) (Node y (chain a ps)) b) s
         = (Inr (left_nested left b rs), s)"
    by (rule visit_expr_loop [where v = "visit env" and s = s and ps = ps and rs = rs
        and node = "Node y (chain a ps)" and pre = "[a]" and j = 0 and acc = left and b = b])
      (use all in \<open>simp_all add: chain_def\<close>)
  have i0: "item (children (Node y (chain a ps))) 0 = Inr a"
    by (simp add: chain_def)
  have idx: "range_2_step_2 (length (children (Node y (chain a ps))))
      = map (\<lambda>k. 2 * k + 2) [0 ..< 0 + length ps]"
    unfolding children.simps length_chain range_2_step_2_odd by simp
  have "visit_expr (visit env) (Node y (chain a ps)) s = (Inr (left_nested left b rs), s)"
    unfolding visit_expr_def i0 idx
    using loop a assms(3) by (simp add: bindM_def)
  then show ?thesis
    using assms(1) by (subst visit.simps) (auto simp: dispatch_def)
qed

theorem visit_expr_left_nested_witness:
  "visit env_3_12
     (Node arith_expr [Leaf NAME ''a'' 1 0, Leaf PLUS ''+'' 1 2, Leaf NAME ''b'' 1 4,
                       Leaf MINUS ''-'' 1 6, Leaf NAME ''c'' 1 8]) Load
   = (Inr (BinOp
            (BinOp (Name ''a'' Load
                      \<lparr>lineno = 1, col_offset = 0, end_lineno = 1, end_col_offset = 1\<rparr>)
                   Add
                   (Name ''b'' Load
                      \<lparr>lineno = 1, col_offset = 4, end_lineno = 1, end_col_offset = 5\<rparr>)
                   \<lparr>lineno = 1, col_offset = 0, end_lineno = 1, end_col_offset = 5\<rparr>)
            Sub
            (Name ''c'' Load
               \<lparr>lineno = 1, col_offset = 8, end_lineno = 1, end_col_offset = 9\<rparr>)
            \<lparr>lineno = 1, col_offset = 0, end_lineno = 1, end_col_offset = 9\<rparr>), Load)"
proof -
  let ?rb = "\<lparr>lineno = 1, col_offset = 4, end_lineno = 1, end_col_offset = 5\<rparr>"
  let ?rc = "\<lparr>lineno = 1, col_offset = 8, end_lineno = 1, end_col_offset = 9\<rparr>"
  have y: "arith_expr \<in> {expr, xor_expr, and_expr, shift_expr, arith_expr, term_sym}"
    by simp
  have a: "fst (visit env_3_12 (Leaf NAME ''a'' 1 0) Load)
      = Inr (Name ''a'' Load
               \<lparr>lineno = 1, col_offset = 0, end_lineno = 1, end_col_offset = 1\<rparr>)"
    by (simp add: run_simps)
  have b: "get_line_range (Leaf NAME ''a'' 1 0)
      = Inr \<lparr>lineno = 1, col_offset = 0, end_lineno = 1, end_col_offset = 1\<rparr>"
    by simp
  have ps: "list_all2 (\<lambda>(operator, operand) (bop, right, r).
              TOKEN_TYPE_TO_BINOP (type_of operator) = Some bop
              \<and> fst (visit env_3_12 operand Load) = Inr right
              \<and> get_line_range operand = Inr r)
          [(Leaf PLUS ''+'' 1 2, Leaf NAME ''b'' 1 4), (Leaf MINUS ''-'' 1 6, Leaf NAME ''c'' 1 8)]
          [(Add, Name ''b'' Load ?rb, ?rb), (Sub, Name ''c'' Load ?rc, ?rc)]"
    by (simp add: run_simps)
  show ?thesis
    using visit_expr_left_nested [OF y a b ps] by (simp add: chain_def)
qed

subsection \<open>Comparisons\<close>

text \<open>
  The operator of a comparison as the specification describes it: a symbolic operator by
  its token type, \<open>is\<close> and \<open>in\<close> by the text of a \<open>NAME\<close> token, \<open>is not\<close> and \<open>not in\<close>
  by the texts of the two tokens under an operator node.
\<close>

fun spec_cmpop :: "nl \<Rightarrow> cmpop option" where
  "spec_cmpop (Leaf t v l c) =
     (if t = NAME then (if v = ''is'' then Some Is else if v = ''in'' then Some In else None)
      else if t = EQEQUAL then Some Eq
      else if t = NOTEQUAL then Some NotEq
      else if t = LESS then Some Lt
      else if t = GREATER then Some Gt
      else if t = LESSEQUAL then Some LtE
      else if t = GREATEREQUAL then Some GtE
      else None)"
| "spec_cmpop (Node y [Leaf t1 v1 l1 c1, Leaf t2 v2 l2 c2]) =
     (if v1 = ''is'' \<and> v2 = ''not'' then Some IsNot
      else if v1 = ''not'' \<and> v2 = ''in'' then Some NotIn
      else None)"
| "spec_cmpop n = None"

lemma compare_operator_spec:
  "spec_cmpop operator = Some cop \<Longrightarrow> compare_operator operator s = (Inr cop, s)"
  by (induction operator rule: spec_cmpop.induct)
    (auto simp: compare_operator_def NAME_TO_COMPARE_OP_def lookup_def return_def assert_def
      bindM_def split: if_splits)

lemma visit_comparison_loop:
  assumes "list_all2 (\<lambda>(operator, operand) (cop, right).
              spec_cmpop operator = Some cop
              \<and> v operand s = (Inr right, s) \<and> is_expr right) ps rs"
    and "children node = pre @ concat (map (\<lambda>(operator, operand). [operator, operand]) ps)"
    and "length pre = 2 * j + 1"
  shows "for_each (map (\<lambda>k. 2 * k + 2) [j ..< j + length ps]) acc
           (visit_comparison_step v node) s
         = (Inr (fst acc @ map fst rs, snd acc @ map snd rs), s)"
  using assms
proof (induction ps arbitrary: rs pre j acc)
  case Nil
  then show ?case by (simp add: return_def)
next
  case (Cons p ps)
  obtain operator operand where p: "p = (operator, operand)" by (cases p)
  from Cons.prems(1) p obtain cop right rs' where rs: "rs = (cop, right) # rs'"
    and h: "spec_cmpop operator = Some cop" "v operand s = (Inr right, s)" "is_expr right"
    and rest: "list_all2 (\<lambda>(operator, operand) (cop, right).
              spec_cmpop operator = Some cop
              \<and> v operand s = (Inr right, s) \<and> is_expr right) ps rs'"
    by (auto simp: list_all2_Cons1)
  have cs: "children node = (pre @ [operator, operand])
              @ concat (map (\<lambda>(operator, operand). [operator, operand]) ps)"
    using Cons.prems(2) p by simp
  have len: "2 * j + 2 < length (children node)"
    using Cons.prems(3) by (simp add: cs)
  have n1: "children node ! (2 * j + 2) = operand"
    using Cons.prems(3) by (simp add: cs nth_append)
  have i1: "item (children node) (int (2 * j + 2)) = Inr operand"
    using item_nat [OF len] n1 by simp
  have len': "2 * j + 1 < length (children node)" using len by simp
  have n2: "children node ! (2 * j + 1) = operator"
    using Cons.prems(3) by (simp add: cs nth_append)
  have "int (2 * j + 2) - 1 = int (2 * j + 1)" by simp
  then have i2: "item (children node) (int (2 * j + 2) - 1) = Inr operator"
    using item_nat [OF len'] n2 by simp
  have step: "visit_comparison_step v node (2 * j + 2) acc s
      = (Inr (fst acc @ [cop], snd acc @ [right]), s)"
    unfolding visit_comparison_step_def
    using i1 i2 h compare_operator_spec [OF h(1), of s]
    by (simp add: bindM_def return_def assert_def)
  have upt: "[j ..< j + length (p # ps)] = j # [Suc j ..< Suc j + length ps]"
    by (simp add: upt_conv_Cons del: upt_Suc)
  have IH: "for_each (map (\<lambda>k. 2 * k + 2) [Suc j ..< Suc j + length ps])
              (fst acc @ [cop], snd acc @ [right]) (visit_comparison_step v node) s
            = (Inr (fst (fst acc @ [cop], snd acc @ [right]) @ map fst rs',
                    snd (fst acc @ [cop], snd acc @ [right]) @ map snd rs'), s)"
    using Cons.prems(3) by (intro Cons.IH [OF rest cs]) simp
  show ?case
    unfolding upt
    using step IH by (simp add: bindM_def rs)
qed

text \<open>
  C8. A comparison node \<open>a op1 b op2 c ...\<close> whose operators resolve and whose operands
  lower to expressions lowers to one \<open>Compare\<close> node: the left operand, the list of the
  operators and the list of the other operands, in order and of the same length.
\<close>

theorem visit_comparison_single_compare:
  assumes "fst (visit env a s) = Inr left"
    and "list_all2 (\<lambda>(operator, operand) (cop, right).
              spec_cmpop operator = Some cop
              \<and> fst (visit env operand s) = Inr right \<and> is_expr right) ps rs"
    and "get_line_range (Node comparison (chain a ps)) = Inr r"
  shows "visit env (Node comparison (chain a ps)) s
         = (Inr (Compare left (map fst rs) (map snd rs) r), s)"
proof -
  have ctx: "\<And>n x. fst (visit env n s) = Inr x \<Longrightarrow> visit env n s = (Inr x, s)"
    using visit_context by (metis prod.collapse)
  have a: "visit env a s = (Inr left, s)" by (rule ctx) (rule assms(1))
  have all: "list_all2 (\<lambda>(operator, operand) (cop, right).
              spec_cmpop operator = Some cop
              \<and> visit env operand s = (Inr right, s) \<and> is_expr right) ps rs"
    using assms(2) by (rule list_all2_mono) (auto dest: ctx)
  have loop: "for_each (map (\<lambda>k. 2 * k + 2) [0 ..< 0 + length ps]) ([], [])
           (visit_comparison_step (visit env) (Node comparison (chain a ps))) s
         = (Inr (map fst rs, map snd rs), s)"
    using all
      visit_comparison_loop [where v = "visit env" and s = s and ps = ps and rs = rs
        and node = "Node comparison (chain a ps)" and pre = "[a]" and j = 0
        and acc = "([], [])"]
    by (simp add: chain_def)
  have i0: "item (children (Node comparison (chain a ps))) 0 = Inr a"
    by (simp add: chain_def)
  have idx: "range_2_step_2 (length (children (Node comparison (chain a ps))))
      = map (\<lambda>k. 2 * k + 2) [0 ..< 0 + length ps]"
    unfolding children.simps length_chain range_2_step_2_odd by simp
  have "visit_comparison (visit env) (Node comparison (chain a ps)) s
      = (Inr (Compare left (map fst rs) (map snd rs) r), s)"
    unfolding visit_comparison_def i0 idx
    using loop a assms(3) by (simp add: bindM_def return_def)
  then show ?thesis
    by (subst visit.simps) (simp add: dispatch_def)
qed

theorem visit_comparison_single_compare_witness:
  "visit env_3_12
     (Node comparison
        [Leaf NAME ''a'' 1 0, Leaf LESS ''<'' 1 2, Leaf NAME ''b'' 1 4,
         Node (other_symbol ''comp_op'') [Leaf NAME ''is'' 1 6, Leaf NAME ''not'' 1 9],
         Leaf NAME ''c'' 1 13,
         Leaf NAME ''in'' 1 15, Leaf NAME ''d'' 1 18]) Load
   = (Inr (Compare
            (Name ''a'' Load
               \<lparr>lineno = 1, col_offset = 0, end_lineno = 1, end_col_offset = 1\<rparr>)
            [Lt, IsNot, In]
            [Name ''b'' Load
               \<lparr>lineno = 1, col_offset = 4, end_lineno = 1, end_col_offset = 5\<rparr>,
             Name ''c'' Load
               \<lparr>lineno = 1, col_offset = 13, end_lineno = 1, end_col_offset = 14\<rparr>,
             Name ''d'' Load
               \<lparr>lineno = 1, col_offset = 18, end_lineno = 1, end_col_offset = 19\<rparr>]
            \<lparr>lineno = 1, col_offset = 0, end_lineno = 1, end_col_offset = 19\<rparr>), Load)"
proof -
  let ?rb = "\<lparr>lineno = 1, col_offset = 4, end_lineno = 1, end_col_offset = 5\<rparr>"
  let ?rc = "\<lparr>lineno = 1, col_offset = 13, end_lineno = 1, end_col_offset = 14\<rparr>"
  let ?rd = "\<lparr>lineno = 1, col_offset = 18, end_lineno = 1, end_col_offset = 19\<rparr>"
  let ?ps = "[(Leaf LESS ''<'' 1 2, Leaf NAME ''b'' 1 4),
           (Node (other_symbol ''comp_op'') [Leaf NAME ''is'' 1 6, Leaf NAME ''not'' 1 9],
            Leaf NAME ''c'' 1 13),
           (Leaf NAME ''in'' 1 15, Leaf NAME ''d'' 1 18)]"
  have a: "fst (visit env_3_12 (Leaf NAME ''a'' 1 0) Load)
      = Inr (Name ''a'' Load
               \<lparr>lineno = 1, col_offset = 0, end_lineno = 1, end_col_offset = 1\<rparr>)"
    by (simp add: run_simps)
  have ps: "list_all2 (\<lambda>(operator, operand) (cop, right).
              spec_cmpop operator = Some cop
              \<and> fst (visit env_3_12 operand Load) = Inr right \<and> is_expr right)
          ?ps [(Lt, Name ''b'' Load ?rb), (IsNot, Name ''c'' Load ?rc), (In, Name ''d'' Load ?rd)]"
    by (simp add: run_simps)
  have r: "get_line_range (Node comparison (chain (Leaf NAME ''a'' 1 0) ?ps))
      = Inr \<lparr>lineno = 1, col_offset = 0, end_lineno = 1, end_col_offset = 19\<rparr>"
    by (simp add: chain_def item_def unify_line_ranges_def)
  show ?thesis
    using visit_comparison_single_compare [OF a ps r] by (simp add: chain_def)
qed

subsection \<open>Targets that must be names\<close>

lemma fst_visit: "fst (visit env n s) = Inr x \<Longrightarrow> visit env n s = (Inr x, s)"
  using visit_context by (metis prod.collapse)

lemma fst_visit_opt:
  "fst (visit_opt (visit env) n s) = Inr x \<Longrightarrow> visit_opt (visit env) n s = (Inr x, s)"
  by (cases n) (auto simp: visit_opt_def raise_def dest: fst_visit)

text \<open>
  In \<open>_compile_named_expr\<close> and in the branch of \<open>_compile_arglist\<close> for a keyword
  argument \<open>name = expr\<close>, the left-hand side is lowered under \<open>Store\<close>. If the result
  \<open>target\<close> is not a \<open>Name\<close>, the method raises \<open>UnsupportedSyntaxError\<close>; if it is, the
  method goes on with the right-hand side and what follows, so whatever it then returns
  or raises does not come from this check.
\<close>

lemma target_must_be_name:
  "(fst (visit_opt (visit env) c0 Store) = Inr target \<longrightarrow>
      compile_named_expr (visit env) (c0 # c1 # c2 # rest) s =
        (if is_Name target then
           bindM (visit_opt (visit env) c2) (\<lambda>v.
             bindE (get_line_range_opt c0) (\<lambda>r0.
             bindE (get_line_range_opt c2) (\<lambda>r2.
             return (NamedExpr target v (unify_line_ranges r0 r2))))) s
         else (Inl (UnsupportedSyntaxError ''walrus target must be a name''), s)))
   \<and> (type_of a0 \<noteq> Token STAR \<and> type_of a0 \<noteq> Token DOUBLESTAR
        \<and> type_of a1 = Token EQUAL \<and> fst (visit env a0 Store) = Inr ktarget \<longrightarrow>
      compile_arglist_step (visit env) node parent_node (Node y (a0 # a1 # a2 # others)) acc s =
        (if is_Name ktarget then
           bindM (visit env a2) (\<lambda>v.
             bindE (name_id ktarget) (\<lambda>arg.
             bindE (get_line_range (Node y (a0 # a1 # a2 # others))) (\<lambda>r.
             return (fst acc, snd acc @ [Keyword (Some arg) v r])))) s
         else (Inl (UnsupportedSyntaxError ''keyword argument target must be a name''), s)))"
proof (intro conjI impI)
  assume "fst (visit_opt (visit env) c0 Store) = Inr target"
  then have t: "visit_opt (visit env) c0 Store = (Inr target, Store)"
    by (rule fst_visit_opt)
  show "compile_named_expr (visit env) (c0 # c1 # c2 # rest) s =
        (if is_Name target then
           bindM (visit_opt (visit env) c2) (\<lambda>v.
             bindE (get_line_range_opt c0) (\<lambda>r0.
             bindE (get_line_range_opt c2) (\<lambda>r2.
             return (NamedExpr target v (unify_line_ranges r0 r2))))) s
         else (Inl (UnsupportedSyntaxError ''walrus target must be a name''), s))"
    unfolding compile_named_expr_def
    by (simp add: bindM_def set_expr_context_def t raise_def)
next
  assume h: "type_of a0 \<noteq> Token STAR \<and> type_of a0 \<noteq> Token DOUBLESTAR
        \<and> type_of a1 = Token EQUAL \<and> fst (visit env a0 Store) = Inr ktarget"
  then have t: "visit env a0 Store = (Inr ktarget, Store)"
    by (auto dest: fst_visit)
  show "compile_arglist_step (visit env) node parent_node (Node y (a0 # a1 # a2 # others)) acc s =
        (if is_Name ktarget then
           bindM (visit env a2) (\<lambda>v.
             bindE (name_id ktarget) (\<lambda>arg.
             bindE (get_line_range (Node y (a0 # a1 # a2 # others))) (\<lambda>r.
             return (fst acc, snd acc @ [Keyword (Some arg) v r])))) s
         else (Inl (UnsupportedSyntaxError ''keyword argument target must be a name''), s))"
    unfolding compile_arglist_step_def
    using h by (simp add: bindM_def set_expr_context_def t raise_def)
qed


lemma target_must_be_name_examples:
  "compile_named_expr (visit env_3_12)
     [Some (Leaf NUMBER ''1'' 1 1), Some (Leaf COLONEQUAL '':='' 1 3), Some (Leaf NAME ''x'' 1 6)]
     Load
     = (Inl (UnsupportedSyntaxError ''walrus target must be a name''), Load)
   \<and> compile_named_expr (visit env_3_12)
     [Some (Leaf NAME ''a'' 1 1), Some (Leaf COLONEQUAL '':='' 1 3), Some (Leaf NAME ''x'' 1 6)]
     Load
     = (Inr (NamedExpr
              (Name ''a'' Store
                 \<lparr>lineno = 1, col_offset = 1, end_lineno = 1, end_col_offset = 2\<rparr>)
              (Name ''x'' Load
                 \<lparr>lineno = 1, col_offset = 6, end_lineno = 1, end_col_offset = 7\<rparr>)
              \<lparr>lineno = 1, col_offset = 1, end_lineno = 1, end_col_offset = 7\<rparr>), Load)
   \<and> compile_arglist_step (visit env_3_12)
       (Leaf NAME ''n'' 0 0) (Leaf NAME ''p'' 0 0)
       (Node (other_symbol ''argument'')
          [Node power_sym
             [Leaf NAME ''a'' 1 2,
              Node (other_symbol ''trailer'') [Leaf DOT ''.'' 1 3, Leaf NAME ''b'' 1 4]],
           Leaf EQUAL ''='' 1 5, Leaf NUMBER ''1'' 1 6])
       ([], []) Load
     = (Inl (UnsupportedSyntaxError ''keyword argument target must be a name''), Load)
   \<and> compile_arglist_step (visit env_3_12)
       (Leaf NAME ''n'' 0 0) (Leaf NAME ''p'' 0 0)
       (Node (other_symbol ''argument'')
          [Leaf NAME ''c'' 1 2, Leaf EQUAL ''='' 1 3, Leaf NUMBER ''1'' 1 4])
       ([], []) Load
     = (Inr ([], [Keyword (Some ''c'')
                    (Constant (Value ''1'')
                       \<lparr>lineno = 1, col_offset = 4, end_lineno = 1, end_col_offset = 5\<rparr>)
                    \<lparr>lineno = 1, col_offset = 2, end_lineno = 1, end_col_offset = 5\<rparr>]),
        Load)"
proof -
  have t1: "fst (visit_opt (visit env_3_12) (Some (Leaf NUMBER ''1'' 1 1)) Store)
      = Inr (Constant (Value ''1'')
               \<lparr>lineno = 1, col_offset = 1, end_lineno = 1, end_col_offset = 2\<rparr>)"
    by (simp add: run_simps env_3_12_def)
  have t2: "fst (visit_opt (visit env_3_12) (Some (Leaf NAME ''a'' 1 1)) Store)
      = Inr (Name ''a'' Store
               \<lparr>lineno = 1, col_offset = 1, end_lineno = 1, end_col_offset = 2\<rparr>)"
    by (simp add: run_simps)
  have t3: "fst (visit env_3_12
        (Node power_sym
             [Leaf NAME ''a'' 1 2,
              Node (other_symbol ''trailer'') [Leaf DOT ''.'' 1 3, Leaf NAME ''b'' 1 4]]) Store)
      = Inr (Attribute
              (Name ''a'' Store
                 \<lparr>lineno = 1, col_offset = 2, end_lineno = 1, end_col_offset = 3\<rparr>)
              ''b'' Store
              \<lparr>lineno = 1, col_offset = 2, end_lineno = 1, end_col_offset = 5\<rparr>)"
    by (simp add: run_simps visit_power_def visit_power_without_power_def
        visit_power_without_await_def visit_trailer_def)
  have t4: "fst (visit env_3_12 (Leaf NAME ''c'' 1 2) Store)
      = Inr (Name ''c'' Store
               \<lparr>lineno = 1, col_offset = 2, end_lineno = 1, end_col_offset = 3\<rparr>)"
    by (simp add: run_simps)
  note w1 = target_must_be_name [THEN conjunct1, rule_format, OF t1]
  note w2 = target_must_be_name [THEN conjunct1, rule_format, OF t2]
  note k1 = target_must_be_name [THEN conjunct2, rule_format,
      of "Node power_sym
             [Leaf NAME ''a'' 1 2,
              Node (other_symbol ''trailer'') [Leaf DOT ''.'' 1 3, Leaf NAME ''b'' 1 4]]"
         "Leaf EQUAL ''='' 1 5" env_3_12]
  note k2 = target_must_be_name [THEN conjunct2, rule_format,
      of "Leaf NAME ''c'' 1 2" "Leaf EQUAL ''='' 1 3" env_3_12]
  show ?thesis
    using t3 t4
    by (simp add: w1 w2 k1 k2) (simp add: run_simps env_3_12_def)
qed

text \<open>
  An assignment expression inside a subscript, \<open>a[t := v]\<close>, is a \<open>subscript\<close> node with
  the children \<open>t\<close>, \<open>:=\<close>, \<open>v\<close>. \<open>visit_subscript\<close> means to hand it to
  \<open>_compile_named_expr\<close>, but its test compares the text of the middle child with the
  integer \<open>token.COLONEQUAL\<close> and never holds. The node is then read as a slice: the first
  child is lowered as the lower bound, and the assertion that a colon follows fails,
  whether the target is a name or not.
\<close>

lemma visit_subscript_walrus_raises:
  assumes "type_of t \<noteq> Token COLON" "fst (visit env t s) = Inr x"
    and "type_of w = Token COLONEQUAL"
  shows "visit env (Node subscript [t, w, v]) s = (Inl AssertionError, s)"
proof -
  have t: "visit env t s = (Inr x, s)" by (rule fst_visit) (rule assms(2))
  have "visit_subscript (visit env) (Node subscript [t, w, v]) s = (Inl AssertionError, s)"
    unfolding visit_subscript_def
    using assms(1,3)
    by (simp add: str_eq_int_def consume_eq visit_opt_def bindM_def t assert_def raise_def
        split: sum.splits)
  then show ?thesis
    by (subst visit.simps) (simp add: dispatch_def)
qed

text \<open>
  C6. \<open>a[b.c := 1]\<close>: the target \<open>b.c\<close> of the assignment expression is not a name, and
  lowering raises \<open>AssertionError\<close>, not \<open>UnsupportedSyntaxError\<close>.
\<close>

theorem subscript_walrus_assertion:
  "visit env_3_12
     (Node power_sym
        [Leaf NAME ''a'' 1 0,
         Node (other_symbol ''trailer'')
           [Leaf LSQB ''['' 1 1,
            Node subscript
              [Node power_sym
                 [Leaf NAME ''b'' 1 2,
                  Node (other_symbol ''trailer'') [Leaf DOT ''.'' 1 3, Leaf NAME ''c'' 1 4]],
               Leaf COLONEQUAL '':='' 1 6, Leaf NUMBER ''1'' 1 9],
            Leaf RSQB '']'' 1 10]]) Load
   = (Inl AssertionError, Load)"
  by (simp add: run_simps visit_power_def visit_power_without_power_def
      visit_power_without_await_def visit_trailer_def visit_subscript_def str_eq_int_def
      consume_def)

text \<open>\<open>b := 1\<close> as a subscript: the same failure for a target that is a name.\<close>

lemma subscript_walrus_name_example:
  "visit env_3_12
     (Node subscript
        [Leaf NAME ''b'' 1 2, Leaf COLONEQUAL '':='' 1 4, Leaf NUMBER ''1'' 1 7]) Load
   = (Inl AssertionError, Load)"
  by (simp add: run_simps visit_subscript_def str_eq_int_def consume_def)

subsection \<open>Starred elements\<close>

text \<open>The result of lowering a node under the context \<open>s\<close>, and the range of a node,
  when there is one.\<close>

definition lowered :: "'v env \<Rightarrow> expr_context \<Rightarrow> nl \<Rightarrow> 'v ast option" where
  "lowered env s n = (case fst (visit env n s) of Inl e \<Rightarrow> None | Inr x \<Rightarrow> Some x)"


lemma lowered_Some: "lowered env s n = Some x \<Longrightarrow> visit env n s = (Inr x, s)"
  by (auto simp: lowered_def split: sum.splits intro: fst_visit)
























subsection \<open>Comprehensions in brace literals\<close>

text \<open>
  What holds of the loop variables of \<open>visit_atom\<close> whenever the loop condition is
  tested: \<open>is_dict\<close> is set exactly when a key has been stored, and there are as many
  values as keys.
\<close>

definition atom_inv :: "'v atom_state \<Rightarrow> bool" where
  "atom_inv st =
     (st_is_dict st = (st_keys st \<noteq> []) \<and> length (st_values st) = length (st_keys st))"

lemma atom_inv_initial:
  "atom_inv \<lparr>st_consumer = c, st_is_dict = False, st_keys = [], st_values = [], st_elts = []\<rparr>"
  by (simp add: atom_inv_def)

lemma expect_comma_Continue:
  "expect_comma st s = (Inr (Continue st'), s') \<Longrightarrow>
     st_is_dict st' = st_is_dict st \<and> st_keys st' = st_keys st
       \<and> st_values st' = st_values st \<and> st_elts st' = st_elts st"
  unfolding expect_comma_def
  by (auto dest!: bindE_Inr bindM_Inr return_Inr split: if_splits)

lemma comp_for_clause_Continue:
  "comp_for_clause v n st s = (Inr (Continue st'), s') \<Longrightarrow>
     st_is_dict st' = st_is_dict st \<and> st_keys st' = st_keys st
       \<and> st_values st' = st_values st \<and> st_elts st' = st_elts st"
  unfolding comp_for_clause_def
  by (auto dest!: bindE_Inr bindM_Inr return_Inr expect_comma_Continue
      split: if_splits option.splits)

lemma visit_atom_body_inv:
  "atom_inv st \<Longrightarrow> visit_atom_body v n st s = (Inr (Continue st'), s') \<Longrightarrow> atom_inv st'"
  unfolding visit_atom_body_def
  by (auto dest!: bindE_Inr bindM_Inr expect_comma_Continue comp_for_clause_Continue
      split: if_splits option.splits simp: atom_inv_def)

text \<open>
  Once the clause is found, the loop body never goes on to the next element: it returns
  a comprehension or raises, also when lowering the clause itself raises. No plain
  literal is built.
\<close>

lemma comp_for_clause_no_fallback:
  assumes "consume (Some (Symbol comp_for)) (st_consumer st) = Inr (Some cf, c')"
  shows "comp_for_clause v node st s \<noteq> (Inr (Continue st'), s')"
  unfolding comp_for_clause_def
  by (auto simp: assms dest!: bindM_Inr bindE_Inr return_Inr split: if_splits)

lemma fst_compile_comprehension:
  "fst (compile_comprehension (visit env) n s) = Inr x
     \<Longrightarrow> compile_comprehension (visit env) n s = (Inr x, s)"
  using preserves_compile_comprehension [of n "visit env", OF preserves_visit]
  by (metis preservesD prod.collapse)

text \<open>
  The members of a brace literal that the loop of \<open>visit_atom\<close> lowers: a plain element
  \<open>e\<close>, a pair \<open>k : v\<close>, a dictionary to merge \<open>**e\<close>, and an assignment expression
  \<open>k := v\<close>; each with its punctuation tokens, as they stand among the children of the
  \<open>dictsetmaker\<close> node.
\<close>

datatype member = Elt nl | Pair nl nl nl | DStar nl nl | Walrus nl nl nl

fun member_children :: "member \<Rightarrow> nl list" where
  "member_children (Elt e) = [e]"
| "member_children (Pair k colon v) = [k, colon, v]"
| "member_children (DStar stars e) = [stars, e]"
| "member_children (Walrus k walrus v) = [k, walrus, v]"

fun is_DStar :: "member \<Rightarrow> bool" where
  "is_DStar (DStar stars e) = True"
| "is_DStar m = False"

text \<open>
  What a member adds to the literal: an element, or a key (none for \<open>**e\<close>) and a value.
  \<open>None\<close> when the tokens are not those of the member, and when a part does not lower.
\<close>

datatype 'v stored = SElt "'v ast" | SPair "'v ast option" "'v ast"

definition starts_plain :: "nl \<Rightarrow> bool" where
  "starts_plain n = (type_of n \<noteq> Token DOUBLESTAR \<and> type_of n \<noteq> Symbol star_expr)"

fun member_stored :: "'v env \<Rightarrow> expr_context \<Rightarrow> member \<Rightarrow> 'v stored option" where
  "member_stored env s (Elt e) =
     (if starts_plain e then map_option SElt (lowered env s e) else None)"
| "member_stored env s (Pair k colon v) =
     (if starts_plain k \<and> type_of colon = Token COLON then
        (case (lowered env s k, lowered env s v) of
           (Some x, Some y) \<Rightarrow> Some (SPair (Some x) y)
         | _ \<Rightarrow> None)
      else None)"
| "member_stored env s (DStar stars e) =
     (if type_of stars = Token DOUBLESTAR then map_option (SPair None) (lowered env s e)
      else None)"
| "member_stored env s (Walrus k walrus v) =
     (if starts_plain k \<and> type_of walrus = Token COLONEQUAL then
        (case fst (compile_named_expr (visit env) [Some k, Some walrus, Some v] s) of
           Inl e \<Rightarrow> None
         | Inr x \<Rightarrow> Some (SElt x))
      else None)"

fun store :: "'v stored \<Rightarrow> 'v atom_state \<Rightarrow> 'v atom_state" where
  "store (SElt x) st = st\<lparr>st_elts := st_elts st @ [x]\<rparr>"
| "store (SPair k v) st =
     st\<lparr>st_is_dict := True, st_keys := st_keys st @ [k], st_values := st_values st @ [v]\<rparr>"

lemma fst_compile_named_expr:
  "fst (compile_named_expr (visit env) [Some k, Some w, Some v] s) = Inr x
     \<Longrightarrow> compile_named_expr (visit env) [Some k, Some w, Some v] s = (Inr x, s)"
  using preserves_compile_named_expr [of "[Some k, Some w, Some v]" "visit env",
      OF preserves_visit]
  by (metis preservesD prod.collapse)

text \<open>The loop variables with the consumer at the child of index \<open>n\<close>, and
  one run of the loop body on a member.\<close>

definition at_index :: "nat \<Rightarrow> 'v atom_state \<Rightarrow> 'v atom_state" where
  "at_index n st = st\<lparr>st_consumer := (st_consumer st)\<lparr>index := n\<rparr>\<rparr>"

lemma body_plain:
  assumes m: "member_stored env s m = Some l" "\<not> is_DStar m"
    and nxt: "type_of nxt = Token COMMA \<or> type_of nxt = Symbol comp_for"
    and c: "cons_children (st_consumer st) = pre @ member_children m @ nxt # post"
      "index (st_consumer st) = length pre"
  shows "visit_atom_body (visit env) node st s =
     comp_for_clause (visit env) node
       (store l (at_index (length pre + length (member_children m)) st)) s"
proof (cases m)
  case (Elt e)
  with m obtain x where x: "lowered env s e = Some x" "l = SElt x" and e: "starts_plain e"
    by (auto split: if_splits)
  show ?thesis
    unfolding visit_atom_body_def
    using c nxt e
    by (auto simp: Elt x consume_eq nth_append bindM_def visit_opt_def lowered_Some [OF x(1)]
        starts_plain_def at_index_def)
next
  case (Pair k colon v)
  with m obtain x y where x: "lowered env s k = Some x" "lowered env s v = Some y"
      "l = SPair (Some x) y" and e: "starts_plain k" "type_of colon = Token COLON"
    by (auto split: if_splits option.splits)
  show ?thesis
    unfolding visit_atom_body_def
    using c nxt e
    by (auto simp: Pair x consume_eq nth_append bindM_def visit_opt_def
        lowered_Some [OF x(1)] lowered_Some [OF x(2)] starts_plain_def at_index_def)
next
  case (DStar stars e)
  with m show ?thesis by simp
next
  case (Walrus k walrus v)
  with m obtain x where
      x: "fst (compile_named_expr (visit env) [Some k, Some walrus, Some v] s) = Inr x"
      "l = SElt x" and e: "starts_plain k" "type_of walrus = Token COLONEQUAL"
    by (auto split: if_splits sum.splits)
  show ?thesis
    unfolding visit_atom_body_def
    using c nxt e
    by (auto simp: Walrus x(2) consume_eq nth_append bindM_def visit_opt_def
        fst_compile_named_expr [OF x(1)] starts_plain_def at_index_def)
qed

lemma body_dstar:
  assumes m: "member_stored env s (DStar stars e) = Some l"
    and c: "cons_children (st_consumer st) = pre @ stars # e # post"
      "index (st_consumer st) = length pre"
  shows "visit_atom_body (visit env) node st s =
     expect_comma (store l (at_index (length pre + 2) st)) s"
proof -
  from m obtain y where x: "lowered env s e = Some y" "l = SPair None y"
      and e: "type_of stars = Token DOUBLESTAR"
    by (auto split: if_splits)
  show ?thesis
    unfolding visit_atom_body_def
    using c e
    by (auto simp: x consume_eq nth_append bindM_def visit_opt_def lowered_Some [OF x(1)]
        at_index_def)
qed

lemma store_fields [simp]:
  "st_consumer (store l st) = st_consumer st"
  "st_keys (store l st) = st_keys st @ (case l of SElt x \<Rightarrow> [] | SPair k v \<Rightarrow> [k])"
  "st_values (store l st) = st_values st @ (case l of SElt x \<Rightarrow> [] | SPair k v \<Rightarrow> [v])"
  "st_elts (store l st) = st_elts st @ (case l of SElt x \<Rightarrow> [x] | SPair k v \<Rightarrow> [])"
  "st_is_dict (store l st) = (st_is_dict st \<or> (case l of SElt x \<Rightarrow> False | SPair k v \<Rightarrow> True))"
  by (cases l; simp)+

lemma at_index_fields [simp]:
  "st_consumer (at_index n st) = (st_consumer st)\<lparr>index := n\<rparr>"
  "st_keys (at_index n st) = st_keys st"
  "st_values (at_index n st) = st_values st"
  "st_elts (at_index n st) = st_elts st"
  "st_is_dict (at_index n st) = st_is_dict st"
  by (simp_all add: at_index_def)

lemma at_index_store: "at_index n (store l st) = store l (at_index n st)"
  by (cases l) (simp_all add: at_index_def)

lemma at_index_at_index [simp]: "at_index n (at_index k st) = at_index n st"
  by (simp add: at_index_def)

lemma atom_inv_store: "atom_inv st \<Longrightarrow> atom_inv (store l st)"
  by (cases l) (auto simp: atom_inv_def)

lemma atom_inv_at_index [simp]: "atom_inv (at_index n st) = atom_inv st"
  by (simp add: atom_inv_def)

text \<open>A member and the comma after it: the loop goes on behind the comma.\<close>

lemma expect_comma_at:
  assumes "type_of comma = Token COMMA"
    and "cons_children (st_consumer st) = pre @ comma # post"
    and "index (st_consumer st) = length pre"
  shows "expect_comma st s = (Inr (Continue (at_index (length pre + 1) st)), s)"
  unfolding expect_comma_def
  using assms
  by (simp add: consume_eq done_c_def bindM_def assert_def return_def at_index_def)

lemma comp_for_clause_comma:
  assumes "type_of comma = Token COMMA"
    and "cons_children (st_consumer st) = pre @ comma # post"
    and "index (st_consumer st) = length pre"
  shows "comp_for_clause v node st s = (Inr (Continue (at_index (length pre + 1) st)), s)"
proof -
  have "comp_for_clause v node st s = expect_comma st s"
    unfolding comp_for_clause_def using assms by (simp add: consume_eq)
  then show ?thesis
    using expect_comma_at [OF assms] by simp
qed

lemma body_member_comma:
  assumes m: "member_stored env s m = Some l"
    and comma: "type_of comma = Token COMMA"
    and c: "cons_children (st_consumer st) = pre @ member_children m @ comma # post"
      "index (st_consumer st) = length pre"
  shows "visit_atom_body (visit env) node st s =
     (Inr (Continue (store l (at_index (length pre + length (member_children m) + 1) st))), s)"
proof -
  let ?n = "length pre + length (member_children m)"
  let ?st = "store l (at_index ?n st)"
  have ch: "cons_children (st_consumer ?st) = (pre @ member_children m) @ comma # post"
    and ix: "index (st_consumer ?st) = length (pre @ member_children m)"
    using c by simp_all
  have after: "at_index (length (pre @ member_children m) + 1) ?st
      = store l (at_index (?n + 1) st)"
    by (simp add: at_index_store)
  show ?thesis
  proof (cases "is_DStar m")
    case True
    then obtain stars e where d: "m = DStar stars e" by (cases m) auto
    have "visit_atom_body (visit env) node st s = expect_comma ?st s"
      using body_dstar [OF m [unfolded d], of st pre "comma # post" node] c
      by (simp add: d)
    then show ?thesis
      using expect_comma_at [OF comma ch ix, of s] after by simp
  next
    case False
    have "visit_atom_body (visit env) node st s = comp_for_clause (visit env) node ?st s"
      using body_plain [OF m False _ c, of node] comma by simp
    then show ?thesis
      using comp_for_clause_comma [OF comma ch ix, of "visit env" node s] after by simp
  qed
qed

text \<open>The children of a \<open>dictsetmaker\<close> node that are members, each with its comma.\<close>

definition prefix_children :: "(member \<times> nl) list \<Rightarrow> nl list" where
  "prefix_children ps = concat (map (\<lambda>(m, comma). member_children m @ [comma]) ps)"

definition stored_with_comma ::
  "'v env \<Rightarrow> expr_context \<Rightarrow> member \<times> nl \<Rightarrow> 'v stored \<Rightarrow> bool" where
  "stored_with_comma env s p l =
     (member_stored env s (fst p) = Some l \<and> type_of (snd p) = Token COMMA)"

definition stores :: "'v stored list \<Rightarrow> 'v atom_state \<Rightarrow> 'v atom_state" where
  "stores ls st = foldl (\<lambda>st l. store l st) st ls"

lemma stores_simps [simp]:
  "stores [] st = st"
  "stores (l # ls) st = stores ls (store l st)"
  by (simp_all add: stores_def)

lemma stores_count:
  "length (st_keys (stores ls st)) + length (st_elts (stores ls st))
     = length (st_keys st) + length (st_elts st) + length ls"
proof (induction ls arbitrary: st)
  case Nil
  show ?case by simp
next
  case (Cons l ls)
  show ?case by (cases l) (simp_all add: Cons.IH)
qed

lemma atom_inv_stores: "atom_inv st \<Longrightarrow> atom_inv (stores ls st)"
  by (induction ls arbitrary: st) (simp_all add: atom_inv_store)

lemma stores_consumer [simp]: "st_consumer (stores ls st) = st_consumer st"
  by (induction ls arbitrary: st) simp_all

lemma visit_atom_loop_prefix:
  assumes "list_all2 (stored_with_comma env s) ps ls"
    and "cons_children (st_consumer st) = pre @ prefix_children ps @ x # post"
    and "index (st_consumer st) = length pre"
  shows "visit_atom_loop (visit env) node st s =
     visit_atom_loop (visit env) node
       (stores ls (at_index (length pre + length (prefix_children ps)) st)) s"
  using assms
proof (induction ps ls arbitrary: st pre rule: list_all2_induct)
  case Nil
  have "at_index (length pre) st = st"
    using Nil by (simp add: at_index_def)
  then show ?case by (simp add: prefix_children_def)
next
  case (Cons p ps l ls)
  obtain m comma where p: "p = (m, comma)" by (cases p)
  from Cons.hyps(1) have m: "member_stored env s m = Some l"
      and comma: "type_of comma = Token COMMA"
    by (simp_all add: stored_with_comma_def p)
  let ?k = "length pre + length (member_children m) + 1"
  let ?st = "store l (at_index ?k st)"
  have ch: "cons_children (st_consumer st)
      = pre @ member_children m @ comma # (prefix_children ps @ x # post)"
    using Cons.prems(1) by (simp add: prefix_children_def p)
  have body: "visit_atom_body (visit env) node st s = (Inr (Continue ?st), s)"
    by (rule body_member_comma [OF m comma ch Cons.prems(2)])
  have nd: "\<not> done_c (st_consumer st)"
    using ch Cons.prems(2) by (simp add: done_c_def)
  have step: "visit_atom_loop (visit env) node st s = visit_atom_loop (visit env) node ?st s"
    by (subst visit_atom_loop.simps) (simp add: nd bindM_def body)
  have ch': "cons_children (st_consumer ?st)
      = (pre @ member_children m @ [comma]) @ prefix_children ps @ x # post"
    using ch by simp
  have ix': "index (st_consumer ?st) = length (pre @ member_children m @ [comma])"
    by simp
  have "visit_atom_loop (visit env) node ?st s =
     visit_atom_loop (visit env) node
       (stores ls (at_index (length (pre @ member_children m @ [comma])
          + length (prefix_children ps)) ?st)) s"
    by (rule Cons.IH [OF ch' ix'])
  also have "at_index (length (pre @ member_children m @ [comma])
          + length (prefix_children ps)) ?st
     = store l (at_index (length pre + length (prefix_children (p # ps))) st)"
    by (simp add: at_index_store prefix_children_def p add.assoc)
  finally show ?case
    using step by simp
qed

text \<open>
  When the clause is found after an element or a pair was stored, the number of
  stored elements and pairs decides.
\<close>

lemma comp_for_clause_outcome:
  assumes "atom_inv st"
    and "consume (Some (Symbol comp_for)) (st_consumer st) = Inr (Some cf, c')"
    and "fst (compile_comprehension (visit env) cf s) = Inr comps"
    and "get_line_range node = Inr r"
  shows "comp_for_clause (visit env) node st s =
     (if length (st_keys st) + length (st_elts st) = 1 then
        (if st_is_dict st
         then Inr (Return (DictComp (hd (st_keys st)) (hd (st_values st)) comps r))
         else Inr (Return (SetComp (hd (st_elts st)) comps r)), s)
      else (Inl AssertionError, s))"
proof -
  have c: "compile_comprehension (visit env) cf s = (Inr comps, s)"
    by (rule fst_compile_comprehension) (rule assms(3))
  have one: "\<And>xs :: 'b list. length xs = 1 \<Longrightarrow> item xs 0 = Inr (hd xs)"
    by (case_tac xs) (simp_all add: item_def)
  show ?thesis
  proof (cases "st_is_dict st")
    case True
    with assms(1) have k: "st_keys st \<noteq> []" "length (st_values st) = length (st_keys st)"
      by (auto simp: atom_inv_def)
    show ?thesis
      unfolding comp_for_clause_def
      using True k
      by (cases "st_elts st")
        (auto simp: assms(2,4) bindM_def c assert_def return_def raise_def one)
  next
    case False
    with assms(1) have k: "st_keys st = []" "st_values st = []"
      by (auto simp: atom_inv_def)
    show ?thesis
      unfolding comp_for_clause_def
      using False k
      by (auto simp: assms(2,4) bindM_def c assert_def return_def raise_def one)
  qed
qed

text \<open>The last member and the clause after it.\<close>

lemma visit_atom_loop_clause:
  assumes m: "member_stored env s m = Some l" "\<not> is_DStar m"
    and cf: "type_of cf = Symbol comp_for"
      "fst (compile_comprehension (visit env) cf s) = Inr comps"
    and r: "get_line_range node = Inr r"
    and c: "cons_children (st_consumer st) = pre @ member_children m @ cf # post"
      "index (st_consumer st) = length pre"
    and inv: "atom_inv st"
  shows "visit_atom_loop (visit env) node st s =
     (if length (st_keys st) + length (st_elts st) = 0 then
        (case l of
           SElt x \<Rightarrow> Inr (SetComp x comps r)
         | SPair k v \<Rightarrow> Inr (DictComp k v comps r))
      else Inl AssertionError, s)"
proof -
  let ?n = "length pre + length (member_children m)"
  let ?st = "store l (at_index ?n st)"
  have body: "visit_atom_body (visit env) node st s = comp_for_clause (visit env) node ?st s"
    using body_plain [OF m _ c, of node] cf(1) by simp
  have k: "consume (Some (Symbol comp_for)) (st_consumer ?st)
      = Inr (Some cf, (st_consumer st)\<lparr>index := ?n + 1\<rparr>)"
    using c cf(1) by (simp add: consume_eq nth_append)
  have i: "atom_inv ?st"
    using inv by (simp add: atom_inv_store)
  have nd: "\<not> done_c (st_consumer st)"
    using c by (simp add: done_c_def)
  have e: "st_keys st = [] \<Longrightarrow> st_elts st = [] \<Longrightarrow> st_values st = [] \<and> \<not> st_is_dict st"
    using inv by (simp add: atom_inv_def)
  have out: "comp_for_clause (visit env) node ?st s =
     (if length (st_keys st) + length (st_elts st) = 0 then
        (case l of
           SElt x \<Rightarrow> Inr (Return (SetComp x comps r))
         | SPair k v \<Rightarrow> Inr (Return (DictComp k v comps r)))
      else Inl AssertionError, s)"
    unfolding comp_for_clause_outcome [OF i k cf(2) r]
    using e by (cases l) auto
  show ?thesis
    by (subst visit_atom_loop.simps)
      (simp add: nd bindM_def body out return_def split: stored.split)
qed

lemma visit_dictsetmaker_atom:
  assumes "type_of lb = Token LBRACE"
  shows "visit env (Node atom [lb, Node dictsetmaker cs, rb]) s =
     visit_atom_loop (visit env) (Node atom [lb, Node dictsetmaker cs, rb])
       \<lparr>st_consumer = \<lparr>cons_children = cs, index = 0\<rparr>,
        st_is_dict = False, st_keys = [], st_values = [], st_elts = []\<rparr> s"
  using assms
  by (subst visit.simps) (simp add: dispatch_def visit_atom_def)

text \<open>
  C4. A brace literal whose \<open>dictsetmaker\<close> node holds members with their commas
  (\<open>ps\<close>), then one more element, pair or assignment expression (\<open>m\<close>), then a
  comprehension clause: when every member and the clause lower, \<open>visit\<close> returns the
  \<open>SetComp\<close> of the element or the \<open>DictComp\<close> of the pair if \<open>m\<close> is the only member,
  and raises \<open>AssertionError\<close> if there are members before it. It never returns a \<open>Set\<close>
  or a \<open>Dict\<close> then.
\<close>

theorem brace_comprehension:
  assumes "type_of lb = Token LBRACE"
    and "list_all2 (stored_with_comma env s) ps ls"
    and "member_stored env s m = Some l" and "\<not> is_DStar m"
    and "type_of cf = Symbol comp_for"
    and "fst (compile_comprehension (visit env) cf s) = Inr comps"
    and "get_line_range
           (Node atom
              [lb, Node dictsetmaker (prefix_children ps @ member_children m @ cf # rest), rb])
         = Inr r"
  shows "visit env
           (Node atom
              [lb, Node dictsetmaker (prefix_children ps @ member_children m @ cf # rest), rb])
           s =
     (if ps = [] then
        (case l of
           SElt x \<Rightarrow> Inr (SetComp x comps r)
         | SPair k v \<Rightarrow> Inr (DictComp k v comps r))
      else Inl AssertionError, s)"
proof -
  let ?cs = "prefix_children ps @ member_children m @ cf # rest"
  let ?node = "Node atom [lb, Node dictsetmaker ?cs, rb]"
  let ?init = "\<lparr>st_consumer = \<lparr>cons_children = ?cs, index = 0\<rparr>,
        st_is_dict = False, st_keys = [], st_values = [], st_elts = []\<rparr> :: 'a atom_state"
  let ?st = "stores ls (at_index (length (prefix_children ps)) ?init)"
  obtain x post where x: "member_children m @ cf # rest = x # post"
    by (cases m) auto
  have inv: "atom_inv ?st"
    by (intro atom_inv_stores) (simp add: atom_inv_def)
  have pre: "visit_atom_loop (visit env) ?node ?init s = visit_atom_loop (visit env) ?node ?st s"
    using visit_atom_loop_prefix [OF assms(2), of ?init "[]" x post ?node] x by simp
  have last: "visit_atom_loop (visit env) ?node ?st s =
     (if length (st_keys ?st) + length (st_elts ?st) = 0 then
        (case l of
           SElt x \<Rightarrow> Inr (SetComp x comps r)
         | SPair k v \<Rightarrow> Inr (DictComp k v comps r))
      else Inl AssertionError, s)"
    by (rule visit_atom_loop_clause [OF assms(3,4,5,6,7), where pre = "prefix_children ps"])
      (simp_all add: inv)
  have count: "length (st_keys ?st) + length (st_elts ?st) = length ps"
    using list_all2_lengthD [OF assms(2)] by (simp add: stores_count)
  have "visit env ?node s = visit_atom_loop (visit env) ?node ?init s"
    by (rule visit_dictsetmaker_atom [OF assms(1)])
  also note pre
  also note last
  finally show ?thesis
    unfolding count by simp
qed

lemmas atom_run_simps =
  visit_atom_def visit_atom_loop.simps visit_atom_body_def comp_for_clause_def
  expect_comma_def consume_def done_c_def compile_comprehension.simps compile_comp_iter.simps
  compile_named_expr_def

text \<open>\<open>{a for x in y}\<close>, \<open>{a: b for x in y}\<close>, \<open>{a, b for x in y}\<close> and
  \<open>{**a, b: c for x in y}\<close>.\<close>

theorem brace_comprehension_witness:
  "visit env_3_12
     (Node atom
        [Leaf LBRACE ''{'' 1 0,
         Node dictsetmaker
           [Leaf NAME ''a'' 1 1,
            Node comp_for [Leaf NAME ''for'' 1 3, Leaf NAME ''x'' 1 7,
                           Leaf NAME ''in'' 1 9, Leaf NAME ''y'' 1 12]],
         Leaf RBRACE ''}'' 1 13]) Load
   = (Inr (SetComp
            (Name ''a'' Load
               \<lparr>lineno = 1, col_offset = 1, end_lineno = 1, end_col_offset = 2\<rparr>)
            [Comprehension
               (Name ''x'' Store
                  \<lparr>lineno = 1, col_offset = 7, end_lineno = 1, end_col_offset = 8\<rparr>)
               (Name ''y'' Load
                  \<lparr>lineno = 1, col_offset = 12, end_lineno = 1, end_col_offset = 13\<rparr>)
               [] 0]
            \<lparr>lineno = 1, col_offset = 0, end_lineno = 1, end_col_offset = 14\<rparr>), Load)
   \<and> visit env_3_12
     (Node atom
        [Leaf LBRACE ''{'' 1 0,
         Node dictsetmaker
           [Leaf NAME ''a'' 1 1, Leaf COLON '':'' 1 2, Leaf NAME ''b'' 1 4,
            Node comp_for [Leaf NAME ''for'' 1 6, Leaf NAME ''x'' 1 10,
                           Leaf NAME ''in'' 1 12, Leaf NAME ''y'' 1 15]],
         Leaf RBRACE ''}'' 1 16]) Load
   = (Inr (DictComp
            (Some (Name ''a'' Load
               \<lparr>lineno = 1, col_offset = 1, end_lineno = 1, end_col_offset = 2\<rparr>))
            (Name ''b'' Load
               \<lparr>lineno = 1, col_offset = 4, end_lineno = 1, end_col_offset = 5\<rparr>)
            [Comprehension
               (Name ''x'' Store
                  \<lparr>lineno = 1, col_offset = 10, end_lineno = 1, end_col_offset = 11\<rparr>)
               (Name ''y'' Load
                  \<lparr>lineno = 1, col_offset = 15, end_lineno = 1, end_col_offset = 16\<rparr>)
               [] 0]
            \<lparr>lineno = 1, col_offset = 0, end_lineno = 1, end_col_offset = 17\<rparr>), Load)
   \<and> visit env_3_12
     (Node atom
        [Leaf LBRACE ''{'' 1 0,
         Node dictsetmaker
           [Leaf NAME ''a'' 1 1, Leaf COMMA '','' 1 2, Leaf NAME ''b'' 1 4,
            Node comp_for [Leaf NAME ''for'' 1 6, Leaf NAME ''x'' 1 10,
                           Leaf NAME ''in'' 1 12, Leaf NAME ''y'' 1 15]],
         Leaf RBRACE ''}'' 1 16]) Load
   = (Inl AssertionError, Load)
   \<and> visit env_3_12
     (Node atom
        [Leaf LBRACE ''{'' 1 0,
         Node dictsetmaker
           [Leaf DOUBLESTAR ''**'' 1 1, Leaf NAME ''a'' 1 3, Leaf COMMA '','' 1 4,
            Leaf NAME ''b'' 1 6, Leaf COLON '':'' 1 7, Leaf NAME ''c'' 1 9,
            Node comp_for [Leaf NAME ''for'' 1 11, Leaf NAME ''x'' 1 15,
                           Leaf NAME ''in'' 1 17, Leaf NAME ''y'' 1 20]],
         Leaf RBRACE ''}'' 1 21]) Load
   = (Inl AssertionError, Load)"
proof -
  let ?lb = "Leaf LBRACE ''{'' 1 0"
  let ?cf1 = "Node comp_for [Leaf NAME ''for'' 1 3, Leaf NAME ''x'' 1 7,
                           Leaf NAME ''in'' 1 9, Leaf NAME ''y'' 1 12]"
  let ?cf2 = "Node comp_for [Leaf NAME ''for'' 1 6, Leaf NAME ''x'' 1 10,
                           Leaf NAME ''in'' 1 12, Leaf NAME ''y'' 1 15]"
  let ?cf4 = "Node comp_for [Leaf NAME ''for'' 1 11, Leaf NAME ''x'' 1 15,
                           Leaf NAME ''in'' 1 17, Leaf NAME ''y'' 1 20]"
  let ?a = "Name ''a'' Load
              \<lparr>lineno = 1, col_offset = 1, end_lineno = 1, end_col_offset = 2\<rparr> :: string ast"
  let ?b = "Name ''b'' Load
              \<lparr>lineno = 1, col_offset = 4, end_lineno = 1, end_col_offset = 5\<rparr> :: string ast"
  let ?m1 = "Elt (Leaf NAME ''a'' 1 1)"
  let ?m2 = "Pair (Leaf NAME ''a'' 1 1) (Leaf COLON '':'' 1 2) (Leaf NAME ''b'' 1 4)"
  let ?p3 = "[(Elt (Leaf NAME ''a'' 1 1), Leaf COMMA '','' 1 2)]"
  let ?m3 = "Elt (Leaf NAME ''b'' 1 4)"
  let ?p4 = "[(DStar (Leaf DOUBLESTAR ''**'' 1 1) (Leaf NAME ''a'' 1 3), Leaf COMMA '','' 1 4)]"
  let ?m4 = "Pair (Leaf NAME ''b'' 1 6) (Leaf COLON '':'' 1 7) (Leaf NAME ''c'' 1 9)"
  note ev = run_simps lowered_def starts_plain_def stored_with_comma_def prefix_children_def
  have lb: "type_of ?lb = Token LBRACE"
    by simp
  have p0: "list_all2 (stored_with_comma env_3_12 Load) [] []"
    by simp
  have p3: "list_all2 (stored_with_comma env_3_12 Load) ?p3 [SElt ?a]"
    by (simp add: ev)
  have p4: "list_all2 (stored_with_comma env_3_12 Load) ?p4
      [SPair None (Name ''a'' Load
         \<lparr>lineno = 1, col_offset = 3, end_lineno = 1, end_col_offset = 4\<rparr>)]"
    by (simp add: ev)
  have m1: "member_stored env_3_12 Load ?m1 = Some (SElt ?a)"
    by (simp add: ev)
  have m2: "member_stored env_3_12 Load ?m2 = Some (SPair (Some ?a) ?b)"
    by (simp add: ev)
  have m3: "member_stored env_3_12 Load ?m3 = Some (SElt ?b)"
    by (simp add: ev)
  have m4: "member_stored env_3_12 Load ?m4
      = Some (SPair
          (Some (Name ''b'' Load
             \<lparr>lineno = 1, col_offset = 6, end_lineno = 1, end_col_offset = 7\<rparr>))
          (Name ''c'' Load
             \<lparr>lineno = 1, col_offset = 9, end_lineno = 1, end_col_offset = 10\<rparr>))"
    by (simp add: ev)
  have d: "\<not> is_DStar ?m1" "\<not> is_DStar ?m2" "\<not> is_DStar ?m3" "\<not> is_DStar ?m4"
    by simp_all
  have cf: "type_of ?cf1 = Symbol comp_for" "type_of ?cf2 = Symbol comp_for"
      "type_of ?cf4 = Symbol comp_for"
    by simp_all
  have g1: "fst (compile_comprehension (visit env_3_12) ?cf1 Load)
      = Inr [Comprehension
               (Name ''x'' Store
                  \<lparr>lineno = 1, col_offset = 7, end_lineno = 1, end_col_offset = 8\<rparr>)
               (Name ''y'' Load
                  \<lparr>lineno = 1, col_offset = 12, end_lineno = 1, end_col_offset = 13\<rparr>)
               [] 0]"
    by (simp add: run_simps atom_run_simps)
  have g2: "fst (compile_comprehension (visit env_3_12) ?cf2 Load)
      = Inr [Comprehension
               (Name ''x'' Store
                  \<lparr>lineno = 1, col_offset = 10, end_lineno = 1, end_col_offset = 11\<rparr>)
               (Name ''y'' Load
                  \<lparr>lineno = 1, col_offset = 15, end_lineno = 1, end_col_offset = 16\<rparr>)
               [] 0]"
    by (simp add: run_simps atom_run_simps)
  have g4: "fst (compile_comprehension (visit env_3_12) ?cf4 Load)
      = Inr [Comprehension
               (Name ''x'' Store
                  \<lparr>lineno = 1, col_offset = 15, end_lineno = 1, end_col_offset = 16\<rparr>)
               (Name ''y'' Load
                  \<lparr>lineno = 1, col_offset = 20, end_lineno = 1, end_col_offset = 21\<rparr>)
               [] 0]"
    by (simp add: run_simps atom_run_simps)
  have r1: "get_line_range
       (Node atom [?lb, Node dictsetmaker (prefix_children [] @ member_children ?m1 @ ?cf1 # []),
          Leaf RBRACE ''}'' 1 13])
      = Inr \<lparr>lineno = 1, col_offset = 0, end_lineno = 1, end_col_offset = 14\<rparr>"
    by (simp add: ev)
  have r2: "get_line_range
       (Node atom [?lb, Node dictsetmaker (prefix_children [] @ member_children ?m2 @ ?cf2 # []),
          Leaf RBRACE ''}'' 1 16])
      = Inr \<lparr>lineno = 1, col_offset = 0, end_lineno = 1, end_col_offset = 17\<rparr>"
    by (simp add: ev)
  have r3: "get_line_range
       (Node atom [?lb, Node dictsetmaker (prefix_children ?p3 @ member_children ?m3 @ ?cf2 # []),
          Leaf RBRACE ''}'' 1 16])
      = Inr \<lparr>lineno = 1, col_offset = 0, end_lineno = 1, end_col_offset = 17\<rparr>"
    by (simp add: ev)
  have r4: "get_line_range
       (Node atom [?lb, Node dictsetmaker (prefix_children ?p4 @ member_children ?m4 @ ?cf4 # []),
          Leaf RBRACE ''}'' 1 21])
      = Inr \<lparr>lineno = 1, col_offset = 0, end_lineno = 1, end_col_offset = 22\<rparr>"
    by (simp add: ev)
  show ?thesis
    using brace_comprehension [OF lb p0 m1 d(1) cf(1) g1 r1]
      brace_comprehension [OF lb p0 m2 d(2) cf(2) g2 r2]
      brace_comprehension [OF lb p3 m3 d(3) cf(2) g2 r3]
      brace_comprehension [OF lb p4 m4 d(4) cf(3) g4 r4]
    by (simp add: prefix_children_def)
qed

text \<open>\<open>{**a for x in y}\<close>: after \<open>**a\<close> the loop does not look for a clause, it wants a
  comma.\<close>

lemma brace_dstar_clause_example:
  "visit env_3_12
     (Node atom
        [Leaf LBRACE ''{'' 1 0,
         Node dictsetmaker
           [Leaf DOUBLESTAR ''**'' 1 1, Leaf NAME ''a'' 1 3,
            Node comp_for [Leaf NAME ''for'' 1 5, Leaf NAME ''x'' 1 9,
                           Leaf NAME ''in'' 1 11, Leaf NAME ''y'' 1 14]],
         Leaf RBRACE ''}'' 1 15]) Load
   = (Inl AssertionError, Load)"
  by (simp add: run_simps atom_run_simps)

text \<open>
  A starred member of a brace literal with more members, \<open>{*a, b}\<close>, is not lowered at
  all: the loop over the \<open>dictsetmaker\<close> takes the child after the \<open>star_expr\<close> node,
  here the comma, for the value.
\<close>

lemma brace_literal_star_example:
  "visit env_3_12
     (Node atom
        [Leaf LBRACE ''{'' 1 0,
         Node dictsetmaker
           [Node star_expr [Leaf STAR ''*'' 1 1, Leaf NAME ''a'' 1 2],
            Leaf COMMA '','' 1 3, Leaf NAME ''b'' 1 5],
         Leaf RBRACE ''}'' 1 6]) Load
   = (Inl (NotImplementedError (Visit ''visit_COMMA'')), Load)"
  by (simp add: run_simps atom_run_simps)

end
